theory Spec2Isabelle
  imports Main "HOL-Library.AList"
begin

section \<open>Key hashing (package utils)\<close>

text \<open>
  \<^verbatim>\<open>PrimaryKeySeparator = "-#-"\<close> is the string that joins the columns of a
  composite primary key.
\<close>

definition PrimaryKeySeparator :: string where
  "PrimaryKeySeparator = ''-#-''"

text \<open>Go's \<^verbatim>\<open>strings.Join(elems, sep)\<close>.\<close>

fun Join :: "string list \<Rightarrow> string \<Rightarrow> string" where
  "Join [] sep = []"
| "Join [x] sep = x"
| "Join (x # y # ys) sep = x @ sep @ Join (y # ys) sep"

text \<open>
  Go's \<^verbatim>\<open>strings.Split(s, sep)\<close> for a non-empty separator: the leftmost
  occurrence of \<open>sep\<close> is cut out, then the scan goes on behind it (occurrences do
  not overlap). \<open>cur\<close> holds, reversed, the bytes of the piece being read.
  With an empty separator Go explodes the string into its characters; the program
  never calls it so, and the model returns the bytes one by one.
\<close>

fun HasPrefix :: "string \<Rightarrow> string \<Rightarrow> bool" where
  "HasPrefix s [] = True"
| "HasPrefix [] (p # ps) = False"
| "HasPrefix (c # cs) (p # ps) = (c = p \<and> HasPrefix cs ps)"

function Split_acc :: "string \<Rightarrow> string \<Rightarrow> string \<Rightarrow> string list" where
  "Split_acc sep cur s =
     (if s = [] then [rev cur]
      else if sep \<noteq> [] \<and> HasPrefix s sep
           then rev cur # Split_acc sep [] (drop (length sep) s)
      else Split_acc sep (hd s # cur) (tl s))"
  by pat_completeness auto
termination
  by (relation "measure (\<lambda>(sep, cur, s). length s)") (auto simp: neq_Nil_conv)

declare Split_acc.simps [simp del]

definition Split :: "string \<Rightarrow> string \<Rightarrow> string list" where
  "Split s sep = (if sep = [] then map (\<lambda>c. [c]) s else Split_acc sep [] s)"

text \<open>
  \<^verbatim>\<open>HashKey(key []any) string\<close>: every value is printed with
  \<^verbatim>\<open>fmt.Sprintf("%v", v)\<close> (the parameter \<open>Sprintf_v\<close>) and the pieces are
  joined with the separator.
\<close>

definition HashKey :: "('a \<Rightarrow> string) \<Rightarrow> 'a list \<Rightarrow> string" where
  "HashKey Sprintf_v key = Join (map Sprintf_v key) PrimaryKeySeparator"

text \<open>
  \<^verbatim>\<open>UnhashKey(key string) string\<close>. \<^verbatim>\<open>sqlescape.EscapeString\<close> lives in a
  package that is not part of the sources at hand and is a parameter.
\<close>

definition quoted :: "(string \<Rightarrow> string) \<Rightarrow> string \<Rightarrow> string" where
  "quoted EscapeString v = [CHR 0x27] @ EscapeString v @ [CHR 0x27]"

definition UnhashKey :: "(string \<Rightarrow> string) \<Rightarrow> string \<Rightarrow> string" where
  "UnhashKey EscapeString key =
     (let str = Split key PrimaryKeySeparator in
      if length str = 1 then quoted EscapeString (str ! 0)
      else ''('' @ Join (map (quoted EscapeString) str) '','' @ '')'')"

text \<open>
  The literal a key is meant to become: \<^verbatim>\<open>'v'\<close> for a single value,
  \<^verbatim>\<open>('v1',...,'vN')\<close> for several, each value escaped and quoted.
\<close>

definition key_literal :: "(string \<Rightarrow> string) \<Rightarrow> string list \<Rightarrow> string" where
  "key_literal EscapeString vs =
     (case vs of
        [v] \<Rightarrow> quoted EscapeString v
      | _ \<Rightarrow> ''('' @ Join (map (quoted EscapeString) vs) '','' @ '')'')"

text \<open>
  When splitting the joined key gives the printed values back: no value holds the
  separator, and no value but the last ends in \<^verbatim>\<open>-#\<close> (such an ending and the
  first byte of the separator behind it read as a separator one byte early).
\<close>

fun contains_sep :: "string \<Rightarrow> bool" where
  "contains_sep [] = False"
| "contains_sep (c # cs) = (HasPrefix (c # cs) ''-#-'' \<or> contains_sep cs)"

definition ends_dash_hash :: "string \<Rightarrow> bool" where
  "ends_dash_hash s = HasPrefix (rev s) ''#-''"

fun key_splittable :: "string list \<Rightarrow> bool" where
  "key_splittable [] = True"
| "key_splittable [v] = (\<not> contains_sep v)"
| "key_splittable (v # w # ws) =
     (\<not> contains_sep v \<and> \<not> ends_dash_hash v \<and> key_splittable (w # ws))"

section \<open>Errors\<close>

text \<open>
  Go's \<^verbatim>\<open>error\<close> values as far as the program tells them apart: a plain error
  with its message (\<^verbatim>\<open>errors.New\<close>, \<^verbatim>\<open>fmt.Errorf\<close>), a
  \<^verbatim>\<open>*mysql.MySQLError\<close> with its number, and a run-time panic.
\<close>

datatype error = Error string | MySQLError nat string | Panic string

section \<open>The database, as the program talks to it\<close>

text \<open>
  Every call on a \<^verbatim>\<open>*sql.Tx\<close> is an event; a transaction is named by a number.
  The server is a record of answers, each a function of the events so far, so that
  it may answer the same statement differently at different times. A function of
  the program takes the events so far and returns, next to its result, the events
  it adds.
\<close>

datatype event =
    BeginTx nat
  | ExecContext nat string "int list"
  | QueryContext nat string
  | Commit nat
  | Rollback nat

type_synonym warning_row = "error + (string \<times> string \<times> string)"

record server =
  db_BeginTx :: "event list \<Rightarrow> error option"
  db_ExecContext :: "event list \<Rightarrow> nat \<Rightarrow> string \<Rightarrow> int list \<Rightarrow> error + int option"
  db_ShowWarnings :: "event list \<Rightarrow> nat \<Rightarrow> error + warning_row list"
  db_ConnectionID :: "event list \<Rightarrow> nat \<Rightarrow> error + int"
  db_Commit :: "event list \<Rightarrow> nat \<Rightarrow> error option"
  db_Rollback :: "event list \<Rightarrow> nat \<Rightarrow> error option"

text \<open>
  \<open>db_ExecContext\<close> answers an error or a result whose \<^verbatim>\<open>RowsAffected()\<close> is
  a count or unsupported; \<open>db_ShowWarnings\<close> answers the rows of
  \<^verbatim>\<open>SHOW WARNINGS\<close>, each (level, code, message) or a row that \<^verbatim>\<open>Scan\<close>
  cannot read.
\<close>

section \<open>Package dbconn\<close>

definition errLockWaitTimeout :: nat where "errLockWaitTimeout = 1205"
definition errDeadlock :: nat where "errDeadlock = 1213"
definition errCannotConnect :: nat where "errCannotConnect = 2003"
definition errConnLost :: nat where "errConnLost = 2013"
definition errReadOnly :: nat where "errReadOnly = 1290"
definition errQueryKilled :: nat where "errQueryKilled = 1836"

record DBConfig =
  LockWaitTimeout :: int
  InnodbLockWaitTimeout :: int
  MaxRetries :: int

definition NewDBConfig :: DBConfig where
  "NewDBConfig = \<lparr>LockWaitTimeout = 30, InnodbLockWaitTimeout = 3, MaxRetries = 5\<rparr>"

fun canRetryError :: "error \<Rightarrow> bool" where
  "canRetryError (MySQLError errNumber msg) =
     (errNumber \<in> {errLockWaitTimeout, errDeadlock, errCannotConnect,
                    errConnLost, errReadOnly, errQueryKilled})"
| "canRetryError _ = False"

text \<open>Statements run one after the other on a transaction, up to the first error.\<close>

fun execEach :: "server \<Rightarrow> nat \<Rightarrow> (string \<times> int list) list \<Rightarrow> event list
    \<Rightarrow> error option \<times> event list" where
  "execEach srv tid [] h = (None, [])"
| "execEach srv tid ((q, args) # qs) h =
     (case db_ExecContext srv h tid q args of
        Inl err \<Rightarrow> (Some err, [ExecContext tid q args])
      | Inr res \<Rightarrow>
          (case execEach srv tid qs (h @ [ExecContext tid q args]) of
             (r, evs) \<Rightarrow> (r, ExecContext tid q args # evs)))"

definition standardizeTrx :: "server \<Rightarrow> nat \<Rightarrow> DBConfig \<Rightarrow> event list
    \<Rightarrow> error option \<times> event list" where
  "standardizeTrx srv trx config h =
     execEach srv trx
       [(''SET time_zone='' @ [CHR 0x27] @ ''+00:00'' @ [CHR 0x27], []),
        (''SET sql_mode='' @ [CHR 0x27, CHR 0x27], []),
        (''SET NAMES '' @ [CHR 0x27] @ ''binary'' @ [CHR 0x27], []),
        (''SET innodb_lock_wait_timeout=?'', [InnodbLockWaitTimeout config]),
        (''SET lock_wait_timeout=?'', [LockWaitTimeout config])] h"

text \<open>
  The loop over the rows of \<^verbatim>\<open>SHOW WARNINGS\<close> in
  \<^verbatim>\<open>RetryableTransaction\<close>: \<open>None\<close> when every row is let through, the error
  returned otherwise.
\<close>

fun checkWarnings :: "bool \<Rightarrow> string \<Rightarrow> warning_row list \<Rightarrow> error option" where
  "checkWarnings ignoreDupKeyWarnings stmt [] = None"
| "checkWarnings ignoreDupKeyWarnings stmt (Inl err # rest) = Some err"
| "checkWarnings ignoreDupKeyWarnings stmt (Inr (level, code, message) # rest) =
     (if code = ''1062'' \<and> ignoreDupKeyWarnings
        then checkWarnings ignoreDupKeyWarnings stmt rest
      else if code = ''3170''
        then checkWarnings ignoreDupKeyWarnings stmt rest
      else Some (Error (''unsafe warning migrating chunk: '' @ message
                          @ '', query: '' @ stmt)))"

text \<open>
  The loop over the statements of one transaction. It ends with every statement
  done, with a retry of the whole transaction, or with the return of an error;
  the transaction is rolled back in the last two cases.
\<close>

datatype loop_exit = LoopDone | LoopRetry error | LoopReturn error

text \<open>
  \<^verbatim>\<open>rowsAffected\<close> is an \<^verbatim>\<open>int64\<close>: \<^verbatim>\<open>rowsAffected += count\<close> wraps
  around at \<open>2 ^ 63\<close>.
\<close>

definition int64 :: "int \<Rightarrow> int" where
  "int64 x = (x + 2 ^ 63) mod 2 ^ 64 - 2 ^ 63"

fun execStmts :: "server \<Rightarrow> nat \<Rightarrow> bool \<Rightarrow> string list \<Rightarrow> int \<Rightarrow> event list
    \<Rightarrow> (loop_exit \<times> int) \<times> event list" where
  "execStmts srv trx ignoreDupKeyWarnings [] rowsAffected h = ((LoopDone, rowsAffected), [])"
| "execStmts srv trx ignoreDupKeyWarnings (stmt # stmts) rowsAffected h =
     (if stmt = [] then execStmts srv trx ignoreDupKeyWarnings stmts rowsAffected h
      else
        (case db_ExecContext srv h trx stmt [] of
           Inl err \<Rightarrow>
             ((if canRetryError err then LoopRetry err else LoopReturn err, rowsAffected),
              [ExecContext trx stmt [], Rollback trx])
         | Inr res \<Rightarrow>
             (case db_ShowWarnings srv (h @ [ExecContext trx stmt []]) trx of
                Inl err \<Rightarrow>
                  ((LoopReturn err, rowsAffected),
                   [ExecContext trx stmt [], QueryContext trx ''SHOW WARNINGS'', Rollback trx])
              | Inr warningRes \<Rightarrow>
                  (case checkWarnings ignoreDupKeyWarnings stmt warningRes of
                     Some err \<Rightarrow>
                       ((LoopReturn err, rowsAffected),
                        [ExecContext trx stmt [], QueryContext trx ''SHOW WARNINGS'',
                         Rollback trx])
                   | None \<Rightarrow>
                       (case execStmts srv trx ignoreDupKeyWarnings stmts
                               (case res of Some count \<Rightarrow> int64 (rowsAffected + count)
                                          | None \<Rightarrow> rowsAffected)
                               (h @ [ExecContext trx stmt [], QueryContext trx ''SHOW WARNINGS''])
                        of (r, evs) \<Rightarrow>
                          (r, ExecContext trx stmt [] # QueryContext trx ''SHOW WARNINGS''
                                # evs))))))"

text \<open>
  \<^verbatim>\<open>RetryableTransaction\<close>: up to \<^verbatim>\<open>MaxRetries\<close> attempts, counted down
  here. \<^verbatim>\<open>rowsAffected\<close> is declared before the loop and keeps what a
  rolled-back attempt added. The test \<^verbatim>\<open>if err != nil\<close> behind the statements
  reads the outer \<^verbatim>\<open>err\<close>, which is nil there (the last call that set it
  succeeded), and has no branch in the model. \<^verbatim>\<open>backoff\<close> only sleeps.
\<close>

fun RetryableTransaction_loop :: "server \<Rightarrow> bool \<Rightarrow> DBConfig \<Rightarrow> string list \<Rightarrow> nat
    \<Rightarrow> error option \<Rightarrow> int \<Rightarrow> event list \<Rightarrow> (int \<times> error option) \<times> event list" where
  "RetryableTransaction_loop srv ignoreDupKeyWarnings config stmts 0 err rowsAffected h =
     ((rowsAffected, err), [])"
| "RetryableTransaction_loop srv ignoreDupKeyWarnings config stmts (Suc n) err rowsAffected h =
     (let trx = length h in
      case db_BeginTx srv h of
        Some e \<Rightarrow>
          (case RetryableTransaction_loop srv ignoreDupKeyWarnings config stmts n (Some e)
                  rowsAffected (h @ [BeginTx trx])
           of (r, evs) \<Rightarrow> (r, BeginTx trx # evs))
      | None \<Rightarrow>
          (case standardizeTrx srv trx config (h @ [BeginTx trx]) of
             (Some e, evs1) \<Rightarrow>
               (case RetryableTransaction_loop srv ignoreDupKeyWarnings config stmts n (Some e)
                       rowsAffected (h @ BeginTx trx # evs1 @ [Rollback trx])
                of (r, evs) \<Rightarrow> (r, BeginTx trx # evs1 @ Rollback trx # evs))
           | (None, evs1) \<Rightarrow>
               (case execStmts srv trx ignoreDupKeyWarnings stmts rowsAffected
                       (h @ BeginTx trx # evs1)
                of ((LoopReturn e, rows), evs2) \<Rightarrow>
                     ((rows, Some e), BeginTx trx # evs1 @ evs2)
                 | ((LoopRetry e, rows), evs2) \<Rightarrow>
                     (case RetryableTransaction_loop srv ignoreDupKeyWarnings config stmts n
                             (Some e) rows (h @ BeginTx trx # evs1 @ evs2)
                      of (r, evs) \<Rightarrow> (r, BeginTx trx # evs1 @ evs2 @ evs))
                 | ((LoopDone, rows), evs2) \<Rightarrow>
                     (case db_Commit srv (h @ BeginTx trx # evs1 @ evs2) trx of
                        None \<Rightarrow> ((rows, None), BeginTx trx # evs1 @ evs2 @ [Commit trx])
                      | Some e \<Rightarrow>
                          (case RetryableTransaction_loop srv ignoreDupKeyWarnings config stmts
                                  n (Some e) rows
                                  (h @ BeginTx trx # evs1 @ evs2 @ [Commit trx, Rollback trx])
                           of (r, evs) \<Rightarrow>
                             (r, BeginTx trx # evs1 @ evs2 @ Commit trx # Rollback trx # evs))))))"

definition RetryableTransaction :: "server \<Rightarrow> bool \<Rightarrow> DBConfig \<Rightarrow> string list \<Rightarrow> event list
    \<Rightarrow> (int \<times> error option) \<times> event list" where
  "RetryableTransaction srv ignoreDupKeyWarnings config stmts h =
     RetryableTransaction_loop srv ignoreDupKeyWarnings config stmts
       (nat (MaxRetries config)) None 0 h"

subsection \<open>Table locks\<close>

text \<open>
  Of \<^verbatim>\<open>table.TableInfo\<close> (declared outside the sources at hand) the fields the
  program reads here.
\<close>

record TableInfo =
  SchemaName :: string
  TableName :: string
  QuotedName :: string
  KeyColumns :: "string list"
  NonGeneratedColumns :: "string list"


record TableLock =
  tables :: "TableInfo list"
  lockTxn :: nat



text \<open>
  \<^verbatim>\<open>(*TableLock).ExecUnderLock\<close>: the statements one after the other on the
  lock's transaction, empty ones skipped, up to the first error. The receiver is a
  pointer; a nil one is dereferenced at the first statement that is not empty.
\<close>

fun ExecUnderLock :: "server \<Rightarrow> TableLock option \<Rightarrow> string list \<Rightarrow> event list
    \<Rightarrow> error option \<times> event list" where
  "ExecUnderLock srv lock [] h = (None, [])"
| "ExecUnderLock srv lock (q # qs) h =
     (if q = [] then ExecUnderLock srv lock qs h
      else
        (case lock of
           None \<Rightarrow> (Some (Panic ''invalid memory address or nil pointer dereference''), [])
         | Some l \<Rightarrow>
             (case db_ExecContext srv h (lockTxn l) q [] of
                Inl err \<Rightarrow> (Some err, [ExecContext (lockTxn l) q []])
              | Inr res \<Rightarrow>
                  (case ExecUnderLock srv lock qs (h @ [ExecContext (lockTxn l) q []]) of
                     (r, evs) \<Rightarrow> (r, ExecContext (lockTxn l) q [] # evs)))))"


section \<open>Package utils: columns of both tables\<close>

definition IntersectNonGeneratedColumns :: "TableInfo \<Rightarrow> TableInfo \<Rightarrow> string" where
  "IntersectNonGeneratedColumns t1 t2 =
     Join (concat (map (\<lambda>col. concat (map (\<lambda>col2. if col = col2 then [''`'' @ col @ ''`''] else [])
                                              (NonGeneratedColumns t2)))
                       (NonGeneratedColumns t1))) '', ''"

section \<open>Package repl: subscriptions\<close>

record queuedChange =
  key :: string
  isDelete :: bool

text \<open>
  The struct \<^verbatim>\<open>statement\<close> and the helpers \<^verbatim>\<open>extractStmt\<close>,
  \<^verbatim>\<open>pksToRowValueConstructor\<close> and \<^verbatim>\<open>table.QuoteColumns\<close> are declared
  outside the sources at hand. The struct has the two fields its literals set; the
  helpers are parameters.
\<close>

record statement =
  numKeys :: int
  stmt :: string

record helpers =
  QuoteColumns :: "string list \<Rightarrow> string"
  pksToRowValueConstructor :: "string list \<Rightarrow> string"
  extractStmt :: "statement list \<Rightarrow> string list"

text \<open>
  A subscription. \<^verbatim>\<open>deltaMap\<close> is a Go map from the hashed key to
  \<^verbatim>\<open>isDelete\<close>: an association list with one entry per key, whose order
  stands for the order in which \<^verbatim>\<open>range\<close> happens to visit the map. The mutex
  and the logger have no part in the model; of the client \<^verbatim>\<open>c\<close> the functions
  take the fields they read.
\<close>

record 'a subscription =
  table :: TableInfo
  newTable :: TableInfo
  disableDeltaMap :: bool
  deltaMap :: "(string \<times> bool) list"
  deltaQueue :: "queuedChange list"
  enableKeyAboveWatermark :: bool
  keyAboveCopierCallback :: "('a \<Rightarrow> bool) option"

definition getDeltaLen :: "'a subscription \<Rightarrow> int" where
  "getDeltaLen s =
     (if disableDeltaMap s then int (length (deltaQueue s)) else int (length (deltaMap s)))"

definition keyAboveWatermarkEnabled :: "'a subscription \<Rightarrow> bool" where
  "keyAboveWatermarkEnabled s = (enableKeyAboveWatermark s \<and> keyAboveCopierCallback s \<noteq> None)"

definition setKeyAboveWatermarkOptimization :: "'a subscription \<Rightarrow> bool \<Rightarrow> 'a subscription" where
  "setKeyAboveWatermarkOptimization s enabled = s\<lparr>enableKeyAboveWatermark := enabled\<rparr>"

text \<open>
  The condition of \<^verbatim>\<open>keyHasChanged\<close>:
  \<^verbatim>\<open>s.keyAboveWatermarkEnabled() && s.keyAboveCopierCallback(key[0])\<close>. The
  callback is only called when the optimization is enabled, and \<^verbatim>\<open>key[0]\<close>
  panics on an empty key.
\<close>

definition keyAboveWatermark :: "'a subscription \<Rightarrow> 'a list \<Rightarrow> error + bool" where
  "keyAboveWatermark s pk =
     (if keyAboveWatermarkEnabled s then
        (case keyAboveCopierCallback s of
           None \<Rightarrow> Inr False
         | Some callback \<Rightarrow>
             (case pk of
                [] \<Rightarrow> Inl (Panic ''index out of range [0] with length 0'')
              | k0 # ks \<Rightarrow> Inr (callback k0)))
      else Inr False)"

definition keyHasChanged :: "('a \<Rightarrow> string) \<Rightarrow> 'a subscription \<Rightarrow> 'a list \<Rightarrow> bool
    \<Rightarrow> error + 'a subscription" where
  "keyHasChanged Sprintf_v s pk deleted =
     (case keyAboveWatermark s pk of
        Inl err \<Rightarrow> Inl err
      | Inr True \<Rightarrow> Inr s
      | Inr False \<Rightarrow>
          (if disableDeltaMap s
           then Inr (s\<lparr>deltaQueue := deltaQueue s
                          @ [\<lparr>key = HashKey Sprintf_v pk, isDelete = deleted\<rparr>]\<rparr>)
           else Inr (s\<lparr>deltaMap := AList.update (HashKey Sprintf_v pk) deleted (deltaMap s)\<rparr>)))"

definition createDeleteStmt :: "helpers \<Rightarrow> 'a subscription \<Rightarrow> string list \<Rightarrow> statement" where
  "createDeleteStmt hp s deleteKeys =
     \<lparr>numKeys = int (length deleteKeys),
      stmt = (if length deleteKeys > 0
              then ''DELETE FROM '' @ QuotedName (newTable s)
                   @ '' WHERE ('' @ QuoteColumns hp (KeyColumns (table s))
                   @ '') IN ('' @ pksToRowValueConstructor hp deleteKeys @ '')''
              else [])\<rparr>"

definition createReplaceStmt :: "helpers \<Rightarrow> 'a subscription \<Rightarrow> string list \<Rightarrow> statement" where
  "createReplaceStmt hp s replaceKeys =
     \<lparr>numKeys = int (length replaceKeys),
      stmt = (if length replaceKeys > 0
              then ''REPLACE INTO '' @ QuotedName (newTable s)
                   @ '' ('' @ IntersectNonGeneratedColumns (table s) (newTable s)
                   @ '') SELECT '' @ IntersectNonGeneratedColumns (table s) (newTable s)
                   @ '' FROM '' @ QuotedName (table s)
                   @ '' FORCE INDEX (PRIMARY) WHERE ('' @ QuoteColumns hp (KeyColumns (table s))
                   @ '') IN ('' @ pksToRowValueConstructor hp replaceKeys @ '')''
              else [])\<rparr>"

text \<open>
  The loop of \<^verbatim>\<open>flushDeltaQueue\<close> over the queue, with \<^verbatim>\<open>prevKey.isDelete\<close>,
  \<^verbatim>\<open>buffer\<close> and \<^verbatim>\<open>stmts\<close> as they stand before each change.
\<close>

fun flushDeltaQueue_loop :: "helpers \<Rightarrow> 'a subscription \<Rightarrow> int \<Rightarrow> queuedChange list \<Rightarrow> bool
    \<Rightarrow> string list \<Rightarrow> statement list \<Rightarrow> statement list \<times> string list \<times> bool" where
  "flushDeltaQueue_loop hp s target [] prevIsDelete buffer stmts = (stmts, buffer, prevIsDelete)"
| "flushDeltaQueue_loop hp s target (change # rest) prevIsDelete buffer stmts =
     (if isDelete change \<noteq> prevIsDelete \<or> int (length buffer) > target
      then flushDeltaQueue_loop hp s target rest (isDelete change) [key change]
             (stmts @ [if prevIsDelete then createDeleteStmt hp s buffer
                       else createReplaceStmt hp s buffer])
      else flushDeltaQueue_loop hp s target rest (isDelete change) (buffer @ [key change]) stmts)"

text \<open>The statements \<^verbatim>\<open>flushDeltaQueue\<close> has built when it starts to execute.\<close>

definition flushDeltaQueue_stmts :: "helpers \<Rightarrow> 'a subscription \<Rightarrow> int \<Rightarrow> statement list" where
  "flushDeltaQueue_stmts hp s target =
     (case flushDeltaQueue_loop hp s target (deltaQueue s) (isDelete (hd (deltaQueue s))) [] [] of
        (stmts, buffer, prevIsDelete) \<Rightarrow>
          stmts @ [if prevIsDelete then createDeleteStmt hp s buffer
                   else createReplaceStmt hp s buffer])"

text \<open>
  \<^verbatim>\<open>flushDeltaQueue\<close>. \<open>target\<close> is the client's \<^verbatim>\<open>targetBatchSize\<close>,
  \<open>config\<close> its \<^verbatim>\<open>dbConfig\<close>. The result is the error returned and the
  subscription as the call leaves it.
\<close>

definition flushDeltaQueue :: "helpers \<Rightarrow> server \<Rightarrow> int \<Rightarrow> DBConfig \<Rightarrow> 'a subscription \<Rightarrow> bool
    \<Rightarrow> TableLock option \<Rightarrow> event list \<Rightarrow> (error option \<times> 'a subscription) \<times> event list" where
  "flushDeltaQueue hp srv target config s underLock lock h =
     (if length (deltaQueue s) = 0 then ((None, s), [])
      else
        (let stmts = flushDeltaQueue_stmts hp s target in
         if underLock then
           (case ExecUnderLock srv lock (extractStmt hp stmts) h of
              (Some err, evs) \<Rightarrow> ((Some err, s), evs)
            | (None, evs) \<Rightarrow> ((None, s\<lparr>deltaQueue := []\<rparr>), evs))
         else
           (case RetryableTransaction srv True config (extractStmt hp stmts) h of
              ((rows, Some err), evs) \<Rightarrow> ((Some err, s), evs)
            | ((rows, None), evs) \<Rightarrow> ((None, s\<lparr>deltaQueue := []\<rparr>), evs))))"

text \<open>
  The loop of \<^verbatim>\<open>flushDeltaMap\<close> over the map. \<^verbatim>\<open>i % target\<close> panics when
  the target is zero; for any other target the remainder is zero in Go exactly when
  it is in HOL.
\<close>

fun flushDeltaMap_loop :: "helpers \<Rightarrow> 'a subscription \<Rightarrow> int \<Rightarrow> (string \<times> bool) list \<Rightarrow> int
    \<Rightarrow> string list \<Rightarrow> string list \<Rightarrow> statement list
    \<Rightarrow> error + statement list \<times> string list \<times> string list" where
  "flushDeltaMap_loop hp s target [] i deleteKeys replaceKeys stmts =
     Inr (stmts, deleteKeys, replaceKeys)"
| "flushDeltaMap_loop hp s target ((k, isDel) # rest) i deleteKeys replaceKeys stmts =
     (let deleteKeys' = (if isDel then deleteKeys @ [k] else deleteKeys);
          replaceKeys' = (if isDel then replaceKeys else replaceKeys @ [k])
      in if target = 0 then Inl (Panic ''integer divide by zero'')
         else if (i + 1) mod target = 0
         then flushDeltaMap_loop hp s target rest (i + 1) [] []
                (stmts @ [createDeleteStmt hp s deleteKeys', createReplaceStmt hp s replaceKeys'])
         else flushDeltaMap_loop hp s target rest (i + 1) deleteKeys' replaceKeys' stmts)"

text \<open>
  The error group of \<^verbatim>\<open>flushDeltaMap\<close>: one \<^verbatim>\<open>RetryableTransaction\<close> per
  statement, with \<^verbatim>\<open>ignoreDupKeyWarnings = false\<close> and a fresh
  \<^verbatim>\<open>NewDBConfig()\<close>; \<^verbatim>\<open>Wait\<close> returns the first error. The goroutines run
  side by side; the model runs them in the order of the statements and stops at the
  first error (the group's context is cancelled then). \<^verbatim>\<open>feedback\<close>, which
  tunes the batch size by the time a statement took, is left out.
\<close>

fun errgroup_run :: "server \<Rightarrow> statement list \<Rightarrow> event list \<Rightarrow> error option \<times> event list" where
  "errgroup_run srv [] h = (None, [])"
| "errgroup_run srv (st # rest) h =
     (case RetryableTransaction srv False NewDBConfig [stmt st] h of
        ((rows, Some err), evs) \<Rightarrow> (Some err, evs)
      | ((rows, None), evs) \<Rightarrow>
          (case errgroup_run srv rest (h @ evs) of (r, evs') \<Rightarrow> (r, evs @ evs')))"

text \<open>The statements \<^verbatim>\<open>flushDeltaMap\<close> has built when it starts to execute.\<close>

definition flushDeltaMap_stmts :: "helpers \<Rightarrow> 'a subscription \<Rightarrow> int \<Rightarrow> error + statement list" where
  "flushDeltaMap_stmts hp s target =
     (case flushDeltaMap_loop hp s target (deltaMap s) 0 [] [] [] of
        Inl err \<Rightarrow> Inl err
      | Inr (stmts, deleteKeys, replaceKeys) \<Rightarrow>
          Inr (stmts @ [createDeleteStmt hp s deleteKeys, createReplaceStmt hp s replaceKeys]))"

definition flushDeltaMap :: "helpers \<Rightarrow> server \<Rightarrow> int \<Rightarrow> 'a subscription \<Rightarrow> bool
    \<Rightarrow> TableLock option \<Rightarrow> event list \<Rightarrow> (error option \<times> 'a subscription) \<times> event list" where
  "flushDeltaMap hp srv target s underLock lock h =
     (case flushDeltaMap_stmts hp s target of
        Inl err \<Rightarrow> ((Some err, s), [])
      | Inr stmts \<Rightarrow>
          (case (if underLock then ExecUnderLock srv lock (extractStmt hp stmts) h
                 else errgroup_run srv stmts h) of
             (Some err, evs) \<Rightarrow> ((Some err, s), evs)
           | (None, evs) \<Rightarrow> ((None, s\<lparr>deltaMap := []\<rparr>), evs)))"

definition flush :: "helpers \<Rightarrow> server \<Rightarrow> int \<Rightarrow> DBConfig \<Rightarrow> 'a subscription \<Rightarrow> bool
    \<Rightarrow> TableLock option \<Rightarrow> event list \<Rightarrow> (error option \<times> 'a subscription) \<times> event list" where
  "flush hp srv target config s underLock lock h =
     (if disableDeltaMap s then flushDeltaQueue hp srv target config s underLock lock h
      else flushDeltaMap hp srv target s underLock lock h)"

section \<open>Notions the properties are stated with\<close>

subsection \<open>Runs of the delta queue\<close>

text \<open>
  The batches of keys that the loop of \<^verbatim>\<open>flushDeltaQueue\<close> cuts the queue into,
  each with its kind (\<open>True\<close> for a delete): the same loop, collecting the buffers
  instead of the statements made of them.
\<close>

fun queue_batches_loop :: "int \<Rightarrow> queuedChange list \<Rightarrow> bool \<Rightarrow> string list
    \<Rightarrow> (bool \<times> string list) list" where
  "queue_batches_loop target [] prevIsDelete buffer = [(prevIsDelete, buffer)]"
| "queue_batches_loop target (change # rest) prevIsDelete buffer =
     (if isDelete change \<noteq> prevIsDelete \<or> int (length buffer) > target
      then (prevIsDelete, buffer) # queue_batches_loop target rest (isDelete change) [key change]
      else queue_batches_loop target rest (isDelete change) (buffer @ [key change]))"

definition queue_batches :: "int \<Rightarrow> queuedChange list \<Rightarrow> (bool \<times> string list) list" where
  "queue_batches target q = queue_batches_loop target q (isDelete (hd q)) []"

text \<open>The statement of a batch, and the change intents a batch stands for.\<close>

definition batch_stmt :: "helpers \<Rightarrow> 'a subscription \<Rightarrow> bool \<times> string list \<Rightarrow> statement" where
  "batch_stmt hp s b =
     (if fst b then createDeleteStmt hp s (snd b) else createReplaceStmt hp s (snd b))"

definition batch_changes :: "bool \<times> string list \<Rightarrow> queuedChange list" where
  "batch_changes b = map (\<lambda>k. \<lparr>key = k, isDelete = fst b\<rparr>) (snd b)"

text \<open>
  Merged as far as the loop merges: two batches that follow each other differ in
  kind, or the first one had outgrown the target when the next change came.
\<close>

fun merged_ok :: "int \<Rightarrow> (bool \<times> string list) list \<Rightarrow> bool" where
  "merged_ok target [] = True"
| "merged_ok target [b] = True"
| "merged_ok target (b1 # b2 # bs) =
     ((fst b1 \<noteq> fst b2 \<or> int (length (snd b1)) > target) \<and> merged_ok target (b2 # bs))"

subsection \<open>What an execution leaves in the events\<close>

text \<open>
  The events of statements run under a lock, and of the statements of one
  transaction of \<^verbatim>\<open>RetryableTransaction\<close> (each followed by its
  \<^verbatim>\<open>SHOW WARNINGS\<close>).
\<close>

definition lock_events :: "TableLock \<Rightarrow> string list \<Rightarrow> event list" where
  "lock_events l qs = map (\<lambda>q. ExecContext (lockTxn l) q []) (filter (\<lambda>q. q \<noteq> []) qs)"

definition trx_events :: "nat \<Rightarrow> string list \<Rightarrow> event list" where
  "trx_events trx qs =
     concat (map (\<lambda>q. [ExecContext trx q [], QueryContext trx ''SHOW WARNINGS''])
                 (filter (\<lambda>q. q \<noteq> []) qs))"

text \<open>
  \<open>committed h qs evs\<close>: the events \<open>evs\<close>, added to \<open>h\<close>, end with a
  transaction that ran every statement of \<open>qs\<close> in order and was committed.
  \<open>all_committed\<close>: one such transaction per statement, one after the other.
\<close>

definition committed :: "event list \<Rightarrow> string list \<Rightarrow> event list \<Rightarrow> bool" where
  "committed h qs evs =
     (\<exists>pre std. evs = pre @ BeginTx (length (h @ pre)) # std
                        @ trx_events (length (h @ pre)) qs @ [Commit (length (h @ pre))])"

fun all_committed :: "event list \<Rightarrow> string list \<Rightarrow> event list \<Rightarrow> bool" where
  "all_committed h [] evs = (evs = [])"
| "all_committed h (q # qs) evs =
     (\<exists>e1 e2. evs = e1 @ e2 \<and> committed h [q] e1 \<and> all_committed (h @ e1) qs e2)"

text \<open>The subscription with its delta store emptied.\<close>

definition clear_store :: "'a subscription \<Rightarrow> 'a subscription" where
  "clear_store s = (if disableDeltaMap s then s\<lparr>deltaQueue := []\<rparr> else s\<lparr>deltaMap := []\<rparr>)"


subsection \<open>Concrete values for the examples\<close>

text \<open>
  A server on which every call succeeds and every statement raises the warnings
  \<open>ws\<close>; helpers that quote columns and keys in the obvious way; two tables.
\<close>

definition example_server :: "warning_row list \<Rightarrow> server" where
  "example_server ws =
     \<lparr>db_BeginTx = (\<lambda>h. None),
      db_ExecContext = (\<lambda>h trx q args. Inr (Some 1)),
      db_ShowWarnings = (\<lambda>h trx. Inr ws),
      db_ConnectionID = (\<lambda>h trx. Inr 7),
      db_Commit = (\<lambda>h trx. None),
      db_Rollback = (\<lambda>h trx. None)\<rparr>"

definition example_helpers :: helpers where
  "example_helpers =
     \<lparr>QuoteColumns = (\<lambda>cols. Join (map (\<lambda>col. ''`'' @ col @ ''`'') cols) '', ''),
      pksToRowValueConstructor = (\<lambda>ks. Join (map (UnhashKey (\<lambda>v. v)) ks) '',''),
      extractStmt = map stmt\<rparr>"

definition example_t1 :: TableInfo where
  "example_t1 = \<lparr>SchemaName = ''test'', TableName = ''t1'', QuotedName = ''`test`.`t1`'',
                  KeyColumns = [''a''], NonGeneratedColumns = [''a'', ''b'']\<rparr>"

definition example_t1_new :: TableInfo where
  "example_t1_new = \<lparr>SchemaName = ''test'', TableName = ''_t1_new'',
                      QuotedName = ''`test`.`_t1_new`'',
                      KeyColumns = [''a''], NonGeneratedColumns = [''a'', ''b'']\<rparr>"

text \<open>
  A subscription in queue mode holding \<^verbatim>\<open>REPLACE<1>, REPLACE<2>, DELETE<3>,
  REPLACE<4>\<close> (the example in the comment of \<^verbatim>\<open>flushDeltaQueue\<close>), and one
  in map mode holding one upsert.
\<close>

definition example_queue_sub :: "string subscription" where
  "example_queue_sub =
     \<lparr>table = example_t1, newTable = example_t1_new, disableDeltaMap = True,
      deltaMap = [],
      deltaQueue = [\<lparr>key = ''1'', isDelete = False\<rparr>, \<lparr>key = ''2'', isDelete = False\<rparr>,
                    \<lparr>key = ''3'', isDelete = True\<rparr>, \<lparr>key = ''4'', isDelete = False\<rparr>],
      enableKeyAboveWatermark = False, keyAboveCopierCallback = None\<rparr>"

definition example_map_sub :: "string subscription" where
  "example_map_sub =
     \<lparr>table = example_t1, newTable = example_t1_new, disableDeltaMap = False,
      deltaMap = [(''1'', False)], deltaQueue = [],
      enableKeyAboveWatermark = False, keyAboveCopierCallback = None\<rparr>"

section \<open>Package repl: the client\<close>

text \<open>
  The struct \<^verbatim>\<open>Client\<close> and its methods are declared outside the sources at
  hand. The record has the fields that \<^verbatim>\<open>TestAllChangesFlushed\<close> and the
  subscriptions set or read (the database handle and the logger apart);
  \<^verbatim>\<open>subscriptions\<close> is a Go map from the encoded table name to the
  subscription.
\<close>

record Position =
  Name :: string
  Pos' :: nat

record 'a Client =
  concurrency :: int
  targetBatchSize :: int
  dbConfig :: DBConfig
  subscriptions :: "(string \<times> 'a subscription) list"
  bufferedPos :: Position
  flushedPos :: Position

text \<open>
  Modelled from the spec: \<^verbatim>\<open>Client.AllChangesFlushed\<close> is not in the sources
  at hand (its test and its callers are). This is the spec's sentence
  \<^verbatim>\<open>AllChangesFlushed() = (flushedPos == bufferedPos and all deltaStores empty)\<close>.
\<close>

definition AllChangesFlushed_spec :: "'a Client \<Rightarrow> bool" where
  "AllChangesFlushed_spec c =
     (flushedPos c = bufferedPos c
      \<and> list_all (\<lambda>(name, s). getDeltaLen s = 0) (subscriptions c))"

text \<open>
  The states of \<^verbatim>\<open>TestAllChangesFlushed\<close> at its nine assertions, each with the
  value the test asserts. The keys \<^verbatim>\<open>[]any{1}\<close>, \<^verbatim>\<open>[]any{2}\<close>,
  \<^verbatim>\<open>[]any{3}\<close> are given as \<^verbatim>\<open>%v\<close> prints them. The first subscription is
  stored under the encoded name of the source table, for which the text
  \<^verbatim>\<open>test.subscription_test\<close> stands here.
\<close>

definition test_srcTable :: TableInfo where
  "test_srcTable = \<lparr>SchemaName = ''test'', TableName = ''subscription_test'',
                     QuotedName = ''`test`.`subscription_test`'',
                     KeyColumns = [''id''], NonGeneratedColumns = [''id'', ''name'']\<rparr>"

definition test_dstTable :: TableInfo where
  "test_dstTable = \<lparr>SchemaName = ''test'', TableName = ''_subscription_test_new'',
                     QuotedName = ''`test`.`_subscription_test_new`'',
                     KeyColumns = [''id''], NonGeneratedColumns = [''id'', ''name'']\<rparr>"

definition test_sub :: "bool \<Rightarrow> string subscription" where
  "test_sub useQueue =
     \<lparr>table = test_srcTable, newTable = test_dstTable, disableDeltaMap = useQueue,
      deltaMap = [], deltaQueue = [],
      enableKeyAboveWatermark = False, keyAboveCopierCallback = None\<rparr>"

definition test_client :: "(string \<times> string subscription) list \<Rightarrow> nat \<Rightarrow> nat
    \<Rightarrow> string Client" where
  "test_client subs buffered flushed =
     \<lparr>concurrency = 2, targetBatchSize = 1000, dbConfig = NewDBConfig,
      subscriptions = subs,
      bufferedPos = (if buffered = 0 then \<lparr>Name = [], Pos' = 0\<rparr>
                     else \<lparr>Name = ''binlog.000001'', Pos' = buffered\<rparr>),
      flushedPos = (if flushed = 0 then \<lparr>Name = [], Pos' = 0\<rparr>
                    else \<lparr>Name = ''binlog.000001'', Pos' = flushed\<rparr>)\<rparr>"

definition TestAllChangesFlushed :: "(string Client \<times> bool) list" where
  "TestAllChangesFlushed =
     (let sub = test_sub False;
          sub_1 = projr (keyHasChanged (\<lambda>v. v) sub [''1''] False);
          sub2_2 = projr (keyHasChanged (\<lambda>v. v) (test_sub False) [''2''] False);
          subQueue = test_sub True;
          subQueue_3 = projr (keyHasChanged (\<lambda>v. v) subQueue [''3''] False);
          cleared = (\<lambda>s. s\<lparr>deltaMap := []\<rparr>)
      in [(test_client [] 0 0, True),
          (test_client [(''test.subscription_test'', sub)] 0 0, True),
          (test_client [(''test.subscription_test'', sub_1)] 0 0, False),
          (test_client [(''test.subscription_test'', sub_1)] 100 50, False),
          (test_client [(''test.subscription_test'', sub_1), (''test2'', sub2_2)] 100 50, False),
          (test_client [(''test.subscription_test'', cleared sub_1),
                        (''test2'', cleared sub2_2)] 100 50, True),
          (test_client [(''test.subscription_test'', cleared sub_1),
                        (''test2'', cleared sub2_2)] 100 100, True),
          (test_client [(''test.subscription_test'', cleared sub_1),
                        (''test2'', cleared sub2_2), (''test3'', subQueue)] 100 100, True),
          (test_client [(''test.subscription_test'', cleared sub_1),
                        (''test2'', cleared sub2_2), (''test3'', subQueue_3)] 100 100, False)])"

text \<open>
  Modelled from the spec: \<^verbatim>\<open>Client.SetKeyAboveWatermarkOptimization\<close> is not in
  the sources at hand. The spec has the optimization switched off for the client as
  a whole once copying completes; the model sets the flag of every subscription
  with \<^verbatim>\<open>setKeyAboveWatermarkOptimization\<close>.
\<close>

definition SetKeyAboveWatermarkOptimization :: "'a Client \<Rightarrow> bool \<Rightarrow> 'a Client" where
  "SetKeyAboveWatermarkOptimization c enabled =
     c\<lparr>subscriptions := map (\<lambda>(name, s). (name, setKeyAboveWatermarkOptimization s enabled))
                              (subscriptions c)\<rparr>"

section \<open>Package migration: the cutover\<close>








section \<open>Package migration: the runner\<close>

datatype migrationState =
    stateInitial | stateCopyRows | stateApplyChangeset | stateAnalyzeTable | stateChecksum
  | statePostChecksum | stateCutOver | stateClose | stateErrCleanup

text \<open>The value \<^verbatim>\<open>iota\<close> gives each state.\<close>

fun migrationState_iota :: "migrationState \<Rightarrow> int" where
  "migrationState_iota stateInitial = 0"
| "migrationState_iota stateCopyRows = 1"
| "migrationState_iota stateApplyChangeset = 2"
| "migrationState_iota stateAnalyzeTable = 3"
| "migrationState_iota stateChecksum = 4"
| "migrationState_iota statePostChecksum = 5"
| "migrationState_iota stateCutOver = 6"
| "migrationState_iota stateClose = 7"
| "migrationState_iota stateErrCleanup = 8"

text \<open>
  Modelled from the spec: the struct \<^verbatim>\<open>Migration\<close> is declared outside the
  sources at hand. The record has the fields the runner reads in the functions below
  and \<^verbatim>\<open>Strict\<close>, the spec's \<^verbatim>\<open>--strict\<close>, which no function of the
  runner at hand reads. The spec gives \<^verbatim>\<open>--checksum\<close> as on by default.
\<close>

record Migration =
  Database :: string
  Table :: string
  Alter :: string
  Checksum :: bool
  Strict :: bool

definition Checksum_default :: bool where
  "Checksum_default = True"

text \<open>
  What the runner hands to \<^verbatim>\<open>row.NewCopier\<close> and
  \<^verbatim>\<open>row.NewCopierFromCheckpoint\<close> (package row is outside the sources at
  hand): the final-checksum flag and, on resume, the low watermark and the two row
  counts.
\<close>

record Copier =
  FinalChecksum :: bool
  fromCheckpoint :: "(string \<times> nat \<times> nat) option"
  CopyRowsCount :: nat
  CopyRowsLogicalCount :: nat

record 'a Runner =
  migration :: Migration
  r_table :: TableInfo
  r_newTable :: "TableInfo option"
  checkpointTable :: "TableInfo option"
  currentState :: migrationState
  replClient :: "'a Client option"
  copier :: "Copier option"
  checker :: bool
  usedResumeFromCheckpoint :: bool

text \<open>
  The checkpoint table as \<^verbatim>\<open>createCheckpointTable\<close> creates it: the names and
  types of its columns, in order.
\<close>

definition createCheckpointTable_columns :: "(string \<times> string) list" where
  "createCheckpointTable_columns =
     [(''id'', ''int NOT NULL AUTO_INCREMENT PRIMARY KEY''),
      (''low_watermark'', ''TEXT''),
      (''binlog_name'', ''VARCHAR(255)''),
      (''binlog_pos'', ''INT''),
      (''rows_copied'', ''BIGINT''),
      (''rows_copied_logical'', ''BIGINT''),
      (''alter_statement'', ''TEXT'')]"

text \<open>The columns \<^verbatim>\<open>dumpCheckpoint\<close> inserts and \<^verbatim>\<open>resumeFromCheckpoint\<close> selects.\<close>

definition dumpCheckpoint_columns :: "string list" where
  "dumpCheckpoint_columns =
     [''low_watermark'', ''binlog_name'', ''binlog_pos'', ''rows_copied'',
      ''rows_copied_logical'', ''alter_statement'']"

definition resumeFromCheckpoint_columns :: "string list" where
  "resumeFromCheckpoint_columns =
     [''low_watermark'', ''binlog_name'', ''binlog_pos'', ''rows_copied'',
      ''rows_copied_logical'', ''alter_statement'']"

text \<open>
  Modelled from the spec: the fields of a checkpoint record as the spec lists them
  (\<^verbatim>\<open>id, copier_watermark, checksum_watermark, binlog_name, binlog_pos, statement\<close>).
\<close>

definition spec_checkpoint_columns :: "string list" where
  "spec_checkpoint_columns =
     [''id'', ''copier_watermark'', ''checksum_watermark'', ''binlog_name'', ''binlog_pos'',
      ''statement'']"

record checkpoint_row =
  cp_id :: nat
  low_watermark :: string
  binlog_name :: string
  binlog_pos :: int
  rows_copied :: nat
  rows_copied_logical :: nat
  alter_statement :: string

text \<open>
  The part of the database the runner's setup depends on: whether the shadow table
  \<^verbatim>\<open>_T_new\<close> can be read, and the checkpoint table \<^verbatim>\<open>_T_chkpnt\<close> (absent, or
  its rows and the next \<^verbatim>\<open>AUTO_INCREMENT\<close> value).
\<close>

record database =
  new_table_exists :: bool
  chkpnt_table :: "(checkpoint_row list \<times> nat) option"

text \<open>
  \<^verbatim>\<open>INSERT\<close> into the checkpoint table: the row gets the next
  \<^verbatim>\<open>AUTO_INCREMENT\<close> value as its id. \<^verbatim>\<open>SELECT ... ORDER BY id DESC LIMIT 1\<close>:
  the row with the greatest id (ids are a primary key, so there is one).
\<close>

definition insert_checkpoint :: "checkpoint_row \<Rightarrow> checkpoint_row list \<times> nat
    \<Rightarrow> checkpoint_row list \<times> nat" where
  "insert_checkpoint row t = (fst t @ [row\<lparr>cp_id := snd t\<rparr>], Suc (snd t))"

fun order_by_id_desc_limit_1 :: "checkpoint_row list \<Rightarrow> checkpoint_row option" where
  "order_by_id_desc_limit_1 [] = None"
| "order_by_id_desc_limit_1 (row # rows) =
     (case order_by_id_desc_limit_1 rows of
        None \<Rightarrow> Some row
      | Some best \<Rightarrow> if cp_id best < cp_id row then Some row else Some best)"

text \<open>
  The calls of the runner whose code is outside the sources at hand, as parameters:
  the answer of \<^verbatim>\<open>pool.Exec\<close> to a statement, \<^verbatim>\<open>SetInfo\<close> on a table,
  the copier's constructors and watermark, the methods of the replication
  client, and the checker's constructor and its \<^verbatim>\<open>Run\<close>.
\<close>

record 'a runner_env =
  env_Exec :: "string \<Rightarrow> error option"
  env_SetInfo :: "TableInfo \<Rightarrow> error + TableInfo"
  env_NewCopier :: "Copier \<Rightarrow> error option"
  env_NewCopierFromCheckpoint :: "Copier \<Rightarrow> error option"
  env_GetLowWatermark :: "Copier \<Rightarrow> error + string"
  env_NewClient :: "'a Client"
  env_SetPos :: "'a Client \<Rightarrow> Position \<Rightarrow> 'a Client"
  env_GetBinlogApplyPosition :: "'a Client \<Rightarrow> Position"
  env_Run :: "'a Client \<Rightarrow> error option"
  env_Flush :: "'a Client \<Rightarrow> error option"
  env_NewChecker :: "error option"
  env_checker_Run :: "error option"

text \<open>
  The calls the runner makes on these, in the order it makes them:
  \<^verbatim>\<open>pool.Exec\<close> with its statement, \<^verbatim>\<open>SetInfo\<close> with the name of the
  table, and the others by their names.
\<close>

datatype runner_call =
    Call_Exec string
  | Call_SetInfo string
  | Call_NewCopier
  | Call_NewClient
  | Call_Run
  | Call_StopPeriodicFlush
  | Call_Flush
  | Call_NewChecker
  | Call_checker_Run

definition NewTableInfo :: "string \<Rightarrow> string \<Rightarrow> TableInfo" where
  "NewTableInfo schema name =
     \<lparr>SchemaName = schema, TableName = name,
      QuotedName = ''`'' @ schema @ ''`.`'' @ name @ ''`'',
      KeyColumns = [], NonGeneratedColumns = []\<rparr>"

definition setCurrentState :: "'a Runner \<Rightarrow> migrationState \<Rightarrow> 'a Runner" where
  "setCurrentState r s =
     (let r1 = r\<lparr>currentState := s\<rparr> in
      if migrationState_iota s > migrationState_iota stateCopyRows \<and> replClient r1 \<noteq> None
      then r1\<lparr>replClient := map_option (\<lambda>c. SetKeyAboveWatermarkOptimization c False)
                                          (replClient r1)\<rparr>
      else r1)"

definition dropOldTable :: "'a runner_env \<Rightarrow> 'a Runner \<Rightarrow> error option \<times> runner_call list" where
  "dropOldTable env r =
     (let query = ''DROP TABLE IF EXISTS `'' @ SchemaName (r_table r) @ ''`.`_''
                    @ TableName (r_table r) @ ''_old`''
      in (env_Exec env query, [Call_Exec query]))"

definition createNewTable :: "'a runner_env \<Rightarrow> 'a Runner \<Rightarrow> database
    \<Rightarrow> (error option \<times> 'a Runner \<times> database) \<times> runner_call list" where
  "createNewTable env r db =
     (let newName = ''_'' @ TableName (r_table r) @ ''_new'';
          dropQuery = ''DROP TABLE IF EXISTS `'' @ SchemaName (r_table r) @ ''`.`''
                        @ newName @ ''`'';
          createQuery = ''CREATE TABLE `'' @ SchemaName (r_table r) @ ''`.`'' @ newName
                          @ ''` LIKE '' @ QuotedName (r_table r)
      in
      if length newName > 64
      then ((Some (Error (''table name is too long: '' @ [CHR 0x27] @ TableName (r_table r)
                           @ [CHR 0x27]
                           @ ''. new table name will exceed 64 characters'')), r, db), [])
      else
        (case env_Exec env dropQuery of
           Some err \<Rightarrow> ((Some err, r, db), [Call_Exec dropQuery])
         | None \<Rightarrow>
             (case env_Exec env createQuery of
                Some err \<Rightarrow>
                  ((Some err, r, db\<lparr>new_table_exists := False\<rparr>),
                   [Call_Exec dropQuery, Call_Exec createQuery])
              | None \<Rightarrow>
                  (case env_SetInfo env (NewTableInfo (Database (migration r)) newName) of
                     Inl err \<Rightarrow>
                       ((Some err,
                         r\<lparr>r_newTable := Some (NewTableInfo (Database (migration r)) newName)\<rparr>,
                         db\<lparr>new_table_exists := True\<rparr>),
                        [Call_Exec dropQuery, Call_Exec createQuery, Call_SetInfo newName])
                   | Inr ti \<Rightarrow>
                       ((None, r\<lparr>r_newTable := Some ti\<rparr>, db\<lparr>new_table_exists := True\<rparr>),
                        [Call_Exec dropQuery, Call_Exec createQuery, Call_SetInfo newName])))))"

definition alterNewTable :: "'a runner_env \<Rightarrow> 'a Runner
    \<Rightarrow> (error option \<times> 'a Runner) \<times> runner_call list" where
  "alterNewTable env r =
     (case r_newTable r of
        None \<Rightarrow> ((Some (Panic ''invalid memory address or nil pointer dereference''), r), [])
      | Some nt \<Rightarrow>
          (let query = ''ALTER TABLE '' @ QuotedName nt @ '' '' @ Alter (migration r) in
           case env_Exec env query of
             Some err \<Rightarrow> ((Some err, r), [Call_Exec query])
           | None \<Rightarrow>
               (case env_SetInfo env nt of
                  Inl err \<Rightarrow> ((Some err, r), [Call_Exec query, Call_SetInfo (TableName nt)])
                | Inr ti \<Rightarrow>
                    ((None, r\<lparr>r_newTable := Some ti\<rparr>),
                     [Call_Exec query, Call_SetInfo (TableName nt)]))))"

definition createCheckpointTable :: "'a runner_env \<Rightarrow> 'a Runner \<Rightarrow> database
    \<Rightarrow> (error option \<times> 'a Runner \<times> database) \<times> runner_call list" where
  "createCheckpointTable env r db =
     (let cpName = ''_'' @ TableName (r_table r) @ ''_chkpnt'';
          dropQuery = ''DROP TABLE IF EXISTS `'' @ SchemaName (r_table r) @ ''`.`''
                        @ cpName @ ''`'';
          createQuery = ''CREATE TABLE `'' @ SchemaName (r_table r) @ ''`.`'' @ cpName
                 @ ''` (id int NOT NULL AUTO_INCREMENT PRIMARY KEY, low_watermark TEXT,  ''
                 @ ''binlog_name VARCHAR(255), binlog_pos INT, rows_copied BIGINT, ''
                 @ ''rows_copied_logical BIGINT, alter_statement TEXT)''
      in
      case env_Exec env dropQuery of
        Some err \<Rightarrow> ((Some err, r, db), [Call_Exec dropQuery])
      | None \<Rightarrow>
          (case env_Exec env createQuery of
             Some err \<Rightarrow>
               ((Some err, r, db\<lparr>chkpnt_table := None\<rparr>),
                [Call_Exec dropQuery, Call_Exec createQuery])
           | None \<Rightarrow>
               ((None,
                 r\<lparr>checkpointTable := Some (NewTableInfo (SchemaName (r_table r)) cpName)\<rparr>,
                 db\<lparr>chkpnt_table := Some ([], 1)\<rparr>),
                [Call_Exec dropQuery, Call_Exec createQuery])))"

text \<open>
  \<^verbatim>\<open>resumeFromCheckpoint\<close>. The runner is a pointer: what the function has
  set before it returns an error stays set, so the runner is returned next to the
  error. \<^verbatim>\<open>uint32(binlogPos)\<close> wraps at \<open>2 ^ 32\<close>.
\<close>

definition resumeFromCheckpoint :: "'a runner_env \<Rightarrow> 'a Runner \<Rightarrow> database
    \<Rightarrow> error option \<times> 'a Runner" where
  "resumeFromCheckpoint env r db =
     (let newName = ''_'' @ TableName (r_table r) @ ''_new'';
          cpName = ''_'' @ TableName (r_table r) @ ''_chkpnt''
      in
      if \<not> new_table_exists db
      then (Some (Error (''could not read from table '' @ [CHR 0x27] @ newName @ [CHR 0x27])), r)
      else
        (case (case chkpnt_table db of None \<Rightarrow> None
                                      | Some t \<Rightarrow> order_by_id_desc_limit_1 (fst t)) of
           None \<Rightarrow>
             (Some (Error (''could not read from table '' @ [CHR 0x27] @ cpName @ [CHR 0x27])), r)
         | Some row \<Rightarrow>
             (if Alter (migration r) \<noteq> alter_statement row
              then (Some (Error (''alter statement in checkpoint table does not match ''
                                   @ ''the alter statement specified here'')), r)
              else
                (case env_SetInfo env (NewTableInfo (Database (migration r)) newName) of
                   Inl err \<Rightarrow>
                     (Some err,
                      r\<lparr>r_newTable := Some (NewTableInfo (Database (migration r)) newName)\<rparr>)
                 | Inr ti \<Rightarrow>
                     (let r1 = r\<lparr>r_newTable := Some ti,
                                  migration := (migration r)\<lparr>Checksum := True\<rparr>\<rparr>;
                          cp = \<lparr>FinalChecksum = Checksum (migration r1),
                                fromCheckpoint = Some (low_watermark row, rows_copied row,
                                                       rows_copied_logical row),
                                CopyRowsCount = rows_copied row,
                                CopyRowsLogicalCount = rows_copied_logical row\<rparr>
                      in
                      case env_NewCopierFromCheckpoint env cp of
                        Some err \<Rightarrow> (Some err, r1\<lparr>copier := None\<rparr>)
                      | None \<Rightarrow>
                          (let r2 = r1\<lparr>copier := Some cp,
                                       replClient := Some (env_SetPos env (env_NewClient env)
                                           \<lparr>Name = binlog_name row,
                                            Pos' = nat (binlog_pos row mod 2 ^ 32)\<rparr>),
                                       checkpointTable :=
                                         Some (NewTableInfo (SchemaName (r_table r)) cpName)\<rparr>
                           in
                           case env_Run env (the (replClient r2)) of
                             Some err \<Rightarrow> (Some err, r2)
                           | None \<Rightarrow> (None, r2\<lparr>usedResumeFromCheckpoint := True\<rparr>)))))))"

text \<open>
  \<^verbatim>\<open>setup\<close>, up to the start of the binary log feed (the throttler and the
  callbacks behind it are left out). Any error of
  \<^verbatim>\<open>resumeFromCheckpoint\<close> is logged and the initial steps of a fresh migration
  are done. The calls are those of \<^verbatim>\<open>setup\<close> and of the functions of the fresh
  start; what \<^verbatim>\<open>resumeFromCheckpoint\<close> reads is answered by the database.
\<close>

definition Runner_setup :: "'a runner_env \<Rightarrow> 'a Runner \<Rightarrow> database
    \<Rightarrow> (error option \<times> 'a Runner \<times> database) \<times> runner_call list" where
  "Runner_setup env r db =
     (case dropOldTable env r of
        (Some err, calls0) \<Rightarrow> ((Some err, r, db), calls0)
      | (None, calls0) \<Rightarrow>
          (case resumeFromCheckpoint env r db of
             (None, r1) \<Rightarrow> ((None, r1, db), calls0)
           | (Some resumeErr, r1) \<Rightarrow>
               (case createNewTable env r1 db of
                  ((Some err, r2, db2), calls1) \<Rightarrow> ((Some err, r2, db2), calls0 @ calls1)
                | ((None, r2, db2), calls1) \<Rightarrow>
                    (case alterNewTable env r2 of
                       ((Some err, r3), calls2) \<Rightarrow>
                         ((Some err, r3, db2), calls0 @ calls1 @ calls2)
                     | ((None, r3), calls2) \<Rightarrow>
                         (case createCheckpointTable env r3 db2 of
                            ((Some err, r4, db4), calls3) \<Rightarrow>
                              ((Some err, r4, db4), calls0 @ calls1 @ calls2 @ calls3)
                          | ((None, r4, db4), calls3) \<Rightarrow>
                              (let cp = \<lparr>FinalChecksum = Checksum (migration r4),
                                         fromCheckpoint = None,
                                         CopyRowsCount = 0, CopyRowsLogicalCount = 0\<rparr>;
                                   calls = calls0 @ calls1 @ calls2 @ calls3
                               in
                               case env_NewCopier env cp of
                                 Some err \<Rightarrow>
                                   ((Some err, r4\<lparr>copier := None\<rparr>, db4),
                                    calls @ [Call_NewCopier])
                               | None \<Rightarrow>
                                   (let r5 = r4\<lparr>copier := Some cp,
                                                replClient := Some (env_NewClient env)\<rparr>
                                    in
                                    ((env_Run env (env_NewClient env), r5, db4),
                                     calls @ [Call_NewCopier, Call_NewClient, Call_Run]))))))))"

text \<open>
  \<^verbatim>\<open>checksum\<close> and \<^verbatim>\<open>prepareForCutover\<close>, each with the calls it makes.
  \<^verbatim>\<open>r.checker\<close> is what \<^verbatim>\<open>checksum.NewChecker\<close> returned: the field of
  the model says whether it is a checker (it is \<^verbatim>\<open>nil\<close> beside an error).
\<close>

definition checksum :: "'a runner_env \<Rightarrow> 'a Runner
    \<Rightarrow> (error option \<times> 'a Runner) \<times> runner_call list" where
  "checksum env r =
     (let r1 = setCurrentState r stateChecksum in
      case env_NewChecker env of
        Some err \<Rightarrow> ((Some err, r1\<lparr>checker := False\<rparr>), [Call_NewChecker])
      | None \<Rightarrow>
          (let r2 = r1\<lparr>checker := True\<rparr> in
           case env_checker_Run env of
             Some err \<Rightarrow> ((Some err, r2), [Call_NewChecker, Call_checker_Run])
           | None \<Rightarrow>
               (let r3 = setCurrentState r2 statePostChecksum in
                case replClient r3 of
                  None \<Rightarrow>
                    ((Some (Panic ''invalid memory address or nil pointer dereference''), r3),
                     [Call_NewChecker, Call_checker_Run])
                | Some c \<Rightarrow>
                    ((env_Flush env c, r3),
                     [Call_NewChecker, Call_checker_Run, Call_Flush]))))"

definition prepareForCutover :: "'a runner_env \<Rightarrow> 'a Runner
    \<Rightarrow> (error option \<times> 'a Runner) \<times> runner_call list" where
  "prepareForCutover env r =
     (let r1 = setCurrentState r stateApplyChangeset in
      case replClient r1 of
        None \<Rightarrow> ((Some (Panic ''invalid memory address or nil pointer dereference''), r1), [])
      | Some c \<Rightarrow>
          (case env_Flush env c of
             Some err \<Rightarrow> ((Some err, r1), [Call_StopPeriodicFlush, Call_Flush])
           | None \<Rightarrow>
               (let r2 = setCurrentState r1 stateAnalyzeTable in
                case r_newTable r2 of
                  None \<Rightarrow>
                    ((Some (Panic ''invalid memory address or nil pointer dereference''), r2),
                     [Call_StopPeriodicFlush, Call_Flush])
                | Some nt \<Rightarrow>
                    (let analyze = ''ANALYZE TABLE '' @ QuotedName nt in
                     case env_Exec env analyze of
                       Some err \<Rightarrow>
                         ((Some err, r2),
                          [Call_StopPeriodicFlush, Call_Flush, Call_Exec analyze])
                     | None \<Rightarrow>
                         (if Checksum (migration r2)
                          then (case checksum env r2 of
                                  (res, calls) \<Rightarrow>
                                    (res, [Call_StopPeriodicFlush, Call_Flush, Call_Exec analyze]
                                            @ calls))
                          else ((None, r2),
                                [Call_StopPeriodicFlush, Call_Flush, Call_Exec analyze]))))))"

text \<open>
  \<^verbatim>\<open>dumpCheckpoint\<close>: one row appended to the checkpoint table. The
  \<^verbatim>\<open>INSERT\<close> fails when the table is not there.
\<close>

definition dumpCheckpoint :: "'a runner_env \<Rightarrow> 'a Runner \<Rightarrow> database
    \<Rightarrow> error option \<times> database" where
  "dumpCheckpoint env r db =
     (case (replClient r, copier r) of
        (Some c, Some cp) \<Rightarrow>
          (let binlog = env_GetBinlogApplyPosition env c in
           case env_GetLowWatermark env cp of
             Inl err \<Rightarrow> (Some err, db)
           | Inr lowWatermark \<Rightarrow>
               (case chkpnt_table db of
                  None \<Rightarrow> (Some (MySQLError 1146 ''Table does not exist''), db)
                | Some t \<Rightarrow>
                    (None, db\<lparr>chkpnt_table := Some (insert_checkpoint
                       \<lparr>cp_id = 0, low_watermark = lowWatermark, binlog_name = Name binlog,
                        binlog_pos = int (Pos' binlog), rows_copied = CopyRowsCount cp,
                        rows_copied_logical = CopyRowsLogicalCount cp,
                        alter_statement = Alter (migration r)\<rparr> t)\<rparr>)))
      | _ \<Rightarrow> (Some (Panic ''invalid memory address or nil pointer dereference''), db))"

text \<open>
  The example of a run: an environment in which every call succeeds, a runner before
  its setup, and a database with a shadow table and two checkpoints written for
  \<^verbatim>\<open>ADD COLUMN c INT\<close>.
\<close>

definition example_env :: "string runner_env" where
  "example_env =
     \<lparr>env_Exec = (\<lambda>q. None),
      env_SetInfo = (\<lambda>ti. Inr (ti\<lparr>KeyColumns := [''a''], NonGeneratedColumns := [''a'', ''b'']\<rparr>)),
      env_NewCopier = (\<lambda>cp. None),
      env_NewCopierFromCheckpoint = (\<lambda>cp. None),
      env_GetLowWatermark = (\<lambda>cp. Inr ''{}''),
      env_NewClient = \<lparr>concurrency = 4, targetBatchSize = 1000, dbConfig = NewDBConfig,
                       subscriptions = [], bufferedPos = \<lparr>Name = [], Pos' = 0\<rparr>,
                       flushedPos = \<lparr>Name = [], Pos' = 0\<rparr>\<rparr>,
      env_SetPos = (\<lambda>c pos. c\<lparr>bufferedPos := pos, flushedPos := pos\<rparr>),
      env_GetBinlogApplyPosition = flushedPos,
      env_Run = (\<lambda>c. None),
      env_Flush = (\<lambda>c. None),
      env_NewChecker = None,
      env_checker_Run = None\<rparr>"

definition example_runner :: "bool \<Rightarrow> bool \<Rightarrow> string \<Rightarrow> string Runner" where
  "example_runner strict userChecksum alter =
     \<lparr>migration = \<lparr>Database = ''test'', Table = ''t1'', Alter = alter,
                    Checksum = userChecksum, Strict = strict\<rparr>,
      r_table = example_t1, r_newTable = None, checkpointTable = None,
      currentState = stateInitial, replClient = None, copier = None, checker = False,
      usedResumeFromCheckpoint = False\<rparr>"

definition example_db :: database where
  "example_db =
     \<lparr>new_table_exists = True,
      chkpnt_table = Some ([\<lparr>cp_id = 1, low_watermark = ''w1'', binlog_name = ''binlog.000001'',
                              binlog_pos = 4, rows_copied = 10, rows_copied_logical = 10,
                              alter_statement = ''ADD COLUMN c INT''\<rparr>,
                            \<lparr>cp_id = 2, low_watermark = ''w2'', binlog_name = ''binlog.000002'',
                              binlog_pos = 120, rows_copied = 50, rows_copied_logical = 48,
                              alter_statement = ''ADD COLUMN c INT''\<rparr>], 3)\<rparr>"



section \<open>Properties: key hashing\<close>

lemma HasPrefix_append: "HasPrefix s p \<Longrightarrow> HasPrefix (s @ t) p"
  by (induction s p rule: HasPrefix.induct) auto

lemma ends_dash_hash_Cons: "ends_dash_hash v \<Longrightarrow> ends_dash_hash (c # v)"
  unfolding ends_dash_hash_def by (simp add: HasPrefix_append)

lemma Split_acc_nosep:
  "\<not> contains_sep v \<Longrightarrow> Split_acc ''-#-'' cur v = [rev cur @ v]"
proof (induction v arbitrary: cur)
  case Nil
  then show ?case by (subst Split_acc.simps) simp
next
  case (Cons c v)
  then show ?case by (subst Split_acc.simps) simp
qed

lemma Split_acc_piece:
  "\<not> contains_sep v \<Longrightarrow> \<not> ends_dash_hash v \<Longrightarrow>
   Split_acc ''-#-'' cur (v @ ''-#-'' @ rest) = (rev cur @ v) # Split_acc ''-#-'' [] rest"
proof (induction v arbitrary: cur)
  case Nil
  then show ?case by (subst Split_acc.simps) simp
next
  case (Cons c v)
  have nopre: "\<not> HasPrefix (c # v @ ''-#-'' @ rest) ''-#-''"
  proof (cases v)
    case Nil
    then show ?thesis by simp
  next
    case (Cons d v')
    note v = this
    show ?thesis
    proof (cases v')
      case Nil
      with v Cons.prems show ?thesis by (auto simp: ends_dash_hash_def)
    next
      case (Cons e v'')
      with v Cons.prems show ?thesis by auto
    qed
  qed
  have "\<not> contains_sep v" using Cons.prems(1) by simp
  moreover have "\<not> ends_dash_hash v" using Cons.prems(2) ends_dash_hash_Cons by blast
  ultimately have "Split_acc ''-#-'' (c # cur) (v @ ''-#-'' @ rest)
      = (rev (c # cur) @ v) # Split_acc ''-#-'' [] rest"
    by (rule Cons.IH)
  then show ?case using nopre by (subst Split_acc.simps) simp
qed

lemma Split_Join:
  "vs \<noteq> [] \<Longrightarrow> key_splittable vs \<Longrightarrow> Split (Join vs ''-#-'') ''-#-'' = vs"
proof (induction vs rule: key_splittable.induct)
  case 1
  then show ?case by simp
next
  case (2 v)
  then show ?case by (simp add: Split_def Split_acc_nosep)
next
  case (3 v w ws)
  then show ?case
    using Split_acc_piece[of v "[]" "Join (w # ws) ''-#-''"] by (simp add: Split_def)
qed

text \<open>
  The values of \<^verbatim>\<open>TestHashAndUnhashKey\<close>: the composite key and the single key.
\<close>

lemma TestHashAndUnhashKey:
  "HashKey (\<lambda>v. v) [''1234'', ''ACDC'', ''12''] = ''1234-#-ACDC-#-12''"
  "UnhashKey (\<lambda>v. v) ''1234-#-ACDC-#-12''
     = ''('' @ quoted (\<lambda>v. v) ''1234'' @ '','' @ quoted (\<lambda>v. v) ''ACDC'' @ '',''
         @ quoted (\<lambda>v. v) ''12'' @ '')''"
  "HashKey (\<lambda>v. v) [''1234''] = ''1234''"
  "UnhashKey (\<lambda>v. v) ''1234'' = quoted (\<lambda>v. v) ''1234''"
  by (simp_all add: HashKey_def UnhashKey_def PrimaryKeySeparator_def Split_def
      Split_acc.simps quoted_def)

text \<open>
  Where no printed value holds the separator, and none but the last ends in
  \<^verbatim>\<open>-#\<close>, \<^verbatim>\<open>UnhashKey\<close> of \<^verbatim>\<open>HashKey\<close> is the literal of the printed
  values, in their order: \<^verbatim>\<open>'v'\<close> for one value, \<^verbatim>\<open>('v1',...,'vN')\<close> for
  several, each value escaped by \<^verbatim>\<open>EscapeString\<close>.
\<close>

lemma HashKey_UnhashKey_roundtrip:
  assumes "pk \<noteq> []" and "key_splittable (map Sprintf_v pk)"
  shows "UnhashKey EscapeString (HashKey Sprintf_v pk)
           = key_literal EscapeString (map Sprintf_v pk)"
proof -
  have "Split (HashKey Sprintf_v pk) PrimaryKeySeparator = map Sprintf_v pk"
    using assms by (simp add: HashKey_def PrimaryKeySeparator_def Split_Join)
  moreover have "map Sprintf_v pk \<noteq> []" using assms(1) by simp
  ultimately show ?thesis
    by (cases "map Sprintf_v pk"; cases "tl (map Sprintf_v pk)")
       (auto simp: UnhashKey_def key_literal_def Let_def)
qed

lemma HashKey_UnhashKey_roundtrip_example:
  "[''1234'', ''ACDC'', ''12''] \<noteq> []
   \<and> key_splittable (map (\<lambda>v. v) [''1234'', ''ACDC'', ''12''])
   \<and> UnhashKey (\<lambda>v. v) (HashKey (\<lambda>v. v) [''1234'', ''ACDC'', ''12''])
       = ''('' @ quoted (\<lambda>v. v) ''1234'' @ '','' @ quoted (\<lambda>v. v) ''ACDC'' @ '',''
           @ quoted (\<lambda>v. v) ''12'' @ '')''"
proof -
  have k: "key_splittable (map (\<lambda>v. v) [''1234'', ''ACDC'', ''12''])"
    by (simp add: ends_dash_hash_def)
  have n: "[''1234'', ''ACDC'', ''12''] \<noteq> ([] :: string list)" by simp
  show ?thesis
    using HashKey_UnhashKey_roundtrip [OF n k, of "\<lambda>v. v"] k
    by (simp add: key_literal_def)
qed

text \<open>
  C9. The round trip is lost when a value holds the separator. The single-column key
  \<^verbatim>\<open>["a-#-b"]\<close> is hashed to \<^verbatim>\<open>a-#-b\<close> and comes back as the two-column row
  \<^verbatim>\<open>('a','b')\<close>, where the key's literal is \<^verbatim>\<open>'a-#-b'\<close>; the key
  \<^verbatim>\<open>["x-#", "y"]\<close> comes back as \<^verbatim>\<open>('x','#-y')\<close>; and the two keys
  \<^verbatim>\<open>["a-#-b", "c"]\<close> and \<^verbatim>\<open>["a", "b-#-c"]\<close> are hashed to one string, so
  that they are one entry of the delta map.
\<close>

theorem HashKey_UnhashKey_separator_in_value:
  "HashKey (\<lambda>v. v) [''a-#-b''] = ''a-#-b''
   \<and> UnhashKey (\<lambda>v. v) (HashKey (\<lambda>v. v) [''a-#-b''])
       = ''('' @ quoted (\<lambda>v. v) ''a'' @ '','' @ quoted (\<lambda>v. v) ''b'' @ '')''
   \<and> key_literal (\<lambda>v. v) [''a-#-b''] = quoted (\<lambda>v. v) ''a-#-b''
   \<and> UnhashKey (\<lambda>v. v) (HashKey (\<lambda>v. v) [''a-#-b'']) \<noteq> key_literal (\<lambda>v. v) [''a-#-b'']
   \<and> UnhashKey (\<lambda>v. v) (HashKey (\<lambda>v. v) [''x-#'', ''y''])
       = ''('' @ quoted (\<lambda>v. v) ''x'' @ '','' @ quoted (\<lambda>v. v) ''#-y'' @ '')''
   \<and> key_literal (\<lambda>v. v) [''x-#'', ''y'']
       = ''('' @ quoted (\<lambda>v. v) ''x-#'' @ '','' @ quoted (\<lambda>v. v) ''y'' @ '')''
   \<and> HashKey (\<lambda>v. v) [''a-#-b'', ''c''] = HashKey (\<lambda>v. v) [''a'', ''b-#-c'']"
  by (simp add: HashKey_def UnhashKey_def PrimaryKeySeparator_def Split_def
      Split_acc.simps quoted_def key_literal_def)

section \<open>Properties: the delta queue\<close>

lemma loop_batches:
  "flushDeltaQueue_loop hp s target q prev buffer stmts = (st, b, p) \<Longrightarrow>
   st @ [batch_stmt hp s (p, b)]
     = stmts @ map (batch_stmt hp s) (queue_batches_loop target q prev buffer)"
proof (induction q arbitrary: prev buffer stmts)
  case Nil
  then show ?case by simp
next
  case (Cons c q)
  show ?case
  proof (cases "isDelete c \<noteq> prev \<or> int (length buffer) > target")
    case True
    with Cons.prems have "flushDeltaQueue_loop hp s target q (isDelete c) [key c]
        (stmts @ [batch_stmt hp s (prev, buffer)]) = (st, b, p)"
      by (cases prev) (simp_all add: batch_stmt_def)
    from Cons.IH[OF this] True show ?thesis by simp
  next
    case False
    with Cons.prems
    have "flushDeltaQueue_loop hp s target q (isDelete c) (buffer @ [key c]) stmts = (st, b, p)"
      by simp
    from Cons.IH[OF this] False show ?thesis by simp
  qed
qed

lemma stmts_batches:
  "flushDeltaQueue_stmts hp s target
     = map (batch_stmt hp s) (queue_batches target (deltaQueue s))"
proof -
  obtain st b p where e: "flushDeltaQueue_loop hp s target (deltaQueue s)
      (isDelete (hd (deltaQueue s))) [] [] = (st, b, p)"
    by (metis prod_cases3)
  from loop_batches[OF e] e show ?thesis
    by (cases p) (simp_all add: flushDeltaQueue_stmts_def queue_batches_def batch_stmt_def)
qed

lemma batches_flatten:
  "concat (map batch_changes (queue_batches_loop target q prev buffer))
     = map (\<lambda>k. \<lparr>key = k, isDelete = prev\<rparr>) buffer @ q"
  by (induction q arbitrary: prev buffer) (auto simp: batch_changes_def)

lemma batches_hd: "\<exists>ks bs. queue_batches_loop target q prev buffer = (prev, ks) # bs"
  by (induction q arbitrary: prev buffer) auto

lemma batches_merged: "merged_ok target (queue_batches_loop target q prev buffer)"
proof (induction q arbitrary: prev buffer)
  case Nil
  then show ?case by simp
next
  case (Cons c q)
  obtain ks bs where h: "queue_batches_loop target q (isDelete c) [key c] = (isDelete c, ks) # bs"
    using batches_hd by blast
  have m: "merged_ok target (queue_batches_loop target q (isDelete c) [key c])"
    by (rule Cons.IH)
  show ?case using Cons.IH[of "isDelete c" "buffer @ [key c]"] m h by auto
qed

lemma batches_size:
  "0 \<le> target \<Longrightarrow> int (length buffer) \<le> target + 1 \<Longrightarrow>
   \<forall>b \<in> set (queue_batches_loop target q prev buffer). int (length (snd b)) \<le> target + 1"
proof (induction q arbitrary: prev buffer)
  case Nil
  then show ?case by simp
next
  case (Cons c q)
  have a: "\<forall>b \<in> set (queue_batches_loop target q (isDelete c) [key c]).
      int (length (snd b)) \<le> target + 1"
    using Cons.prems(1) by (intro Cons.IH) simp_all
  show ?case
  proof (cases "isDelete c \<noteq> prev \<or> int (length buffer) > target")
    case True
    then show ?thesis using a Cons.prems by simp
  next
    case False
    then have "int (length (buffer @ [key c])) \<le> target + 1" by simp
    from Cons.IH[OF Cons.prems(1) this] False show ?thesis by simp
  qed
qed

lemma batches_nonempty:
  "buffer \<noteq> [] \<or> (q \<noteq> [] \<and> isDelete (hd q) = prev \<and> 0 \<le> target) \<Longrightarrow>
   \<forall>b \<in> set (queue_batches_loop target q prev buffer). snd b \<noteq> []"
proof (induction q arbitrary: prev buffer)
  case Nil
  then show ?case by simp
next
  case (Cons c q)
  show ?case
    using Cons.prems Cons.IH[of "[key c]" "isDelete c"]
      Cons.IH[of "buffer @ [key c]" "isDelete c"]
    by auto
qed

section \<open>Properties: executing statements\<close>

lemma ExecUnderLock_events:
  "ExecUnderLock srv (Some l) qs h = (r, evs) \<Longrightarrow>
   (\<exists>n. evs = take n (lock_events l qs)) \<and> (r = None \<longrightarrow> evs = lock_events l qs)"
proof (induction qs arbitrary: h r evs)
  case Nil
  then show ?case by (simp add: lock_events_def)
next
  case (Cons q qs)
  show ?case
  proof (cases "q = []")
    case True
    with Cons show ?thesis by (simp add: lock_events_def)
  next
    case False
    show ?thesis
    proof (cases "db_ExecContext srv h (lockTxn l) q []")
      case (Inl err)
      with False Cons.prems have "evs = take 1 (lock_events l (q # qs))" "r \<noteq> None"
        by (auto simp: lock_events_def)
      then show ?thesis by blast
    next
      case (Inr res)
      obtain r' evs' where
        e: "ExecUnderLock srv (Some l) qs (h @ [ExecContext (lockTxn l) q []]) = (r', evs')"
        by fastforce
      from Cons.IH[OF e] obtain n where n: "evs' = take n (lock_events l qs)"
        and f: "r' = None \<longrightarrow> evs' = lock_events l qs" by blast
      from Inr False Cons.prems e have "r = r'" "evs = ExecContext (lockTxn l) q [] # evs'"
        by auto
      with n f False have "evs = take (Suc n) (lock_events l (q # qs))"
        "r = None \<longrightarrow> evs = lock_events l (q # qs)" by (auto simp: lock_events_def)
      then show ?thesis by blast
    qed
  qed
qed



lemma execStmts_done_events:
  "execStmts srv trx ign qs rows h = ((LoopDone, rows1), evs) \<Longrightarrow> evs = trx_events trx qs"
proof (induction qs arbitrary: rows h evs)
  case Nil
  then show ?case by (simp add: trx_events_def)
next
  case (Cons q qs)
  show ?case
  proof (cases "q = []")
    case True
    with Cons show ?thesis by (simp add: trx_events_def)
  next
    case False
    with Cons.prems Cons.IH show ?thesis
      by (auto simp: trx_events_def split: sum.splits option.splits prod.splits if_splits)
  qed
qed

lemma committed_shift:
  "committed (h @ xs) qs evs \<Longrightarrow> committed h qs (xs @ evs)"
  unfolding committed_def
  apply (elim exE)
  subgoal for pre std
    apply (rule exI[of _ "xs @ pre"])
    apply (rule exI[of _ std])
    apply simp
    done
  done

lemma RetryableTransaction_loop_ok:
  "RetryableTransaction_loop srv ign cfg qs n err rows h = ((rows', None), evs) \<Longrightarrow>
   (n = 0 \<and> err = None \<and> evs = []) \<or> committed h qs evs"
proof (induction n arbitrary: err rows h evs)
  case 0
  then show ?case by simp
next
  case (Suc n)
  let ?t = "length h"
  show ?case
  proof (cases "db_BeginTx srv h")
    case (Some e)
    obtain r evs' where rec: "RetryableTransaction_loop srv ign cfg qs n (Some e) rows
        (h @ [BeginTx ?t]) = (r, evs')"
      by fastforce
    with Some Suc.prems have r: "r = (rows', None)" and ev: "evs = BeginTx ?t # evs'"
      by (auto simp: Let_def)
    from Suc.IH[OF rec[unfolded r]] have "committed (h @ [BeginTx ?t]) qs evs'" by simp
    from committed_shift[OF this] ev show ?thesis by simp
  next
    case None
    obtain se evs1 where std: "standardizeTrx srv ?t cfg (h @ [BeginTx ?t]) = (se, evs1)"
      by fastforce
    show ?thesis
    proof (cases se)
      case (Some e)
      obtain r evs' where rec: "RetryableTransaction_loop srv ign cfg qs n (Some e) rows
          (h @ BeginTx ?t # evs1 @ [Rollback ?t]) = (r, evs')"
        by fastforce
      with None Some std Suc.prems have r: "r = (rows', None)"
        and ev: "evs = BeginTx ?t # evs1 @ Rollback ?t # evs'"
        by (auto simp: Let_def)
      from Suc.IH[OF rec[unfolded r]]
      have "committed (h @ BeginTx ?t # evs1 @ [Rollback ?t]) qs evs'"
        by simp
      from committed_shift[OF this] ev show ?thesis by simp
    next
      case None2: None
      obtain ex rows1 evs2 where
        ex: "execStmts srv ?t ign qs rows (h @ BeginTx ?t # evs1) = ((ex, rows1), evs2)"
        by (metis prod.exhaust)
      show ?thesis
      proof (cases ex)
        case LoopDone
        note evs2 = execStmts_done_events[OF ex[unfolded LoopDone]]
        show ?thesis
        proof (cases "db_Commit srv (h @ BeginTx ?t # evs1 @ evs2) ?t")
          case None3: None
          with None None2 std ex LoopDone Suc.prems
          have "evs = BeginTx ?t # evs1 @ evs2 @ [Commit ?t]" by (auto simp: Let_def)
          with evs2 have "committed h qs evs"
            unfolding committed_def
            by (intro exI[of _ "[]"] exI[of _ evs1]) simp
          then show ?thesis by simp
        next
          case (Some e)
          obtain r evs' where rec: "RetryableTransaction_loop srv ign cfg qs n (Some e) rows1
              (h @ BeginTx ?t # evs1 @ evs2 @ [Commit ?t, Rollback ?t]) = (r, evs')"
            by fastforce
          with None None2 std ex LoopDone Some Suc.prems have r: "r = (rows', None)"
            and ev: "evs = BeginTx ?t # evs1 @ evs2 @ Commit ?t # Rollback ?t # evs'"
            by (auto simp: Let_def)
          from Suc.IH[OF rec[unfolded r]]
          have "committed (h @ BeginTx ?t # evs1 @ evs2 @ [Commit ?t, Rollback ?t]) qs evs'"
            by simp
          from committed_shift[OF this] ev show ?thesis by simp
        qed
      next
        case (LoopRetry e)
        obtain r evs' where rec: "RetryableTransaction_loop srv ign cfg qs n (Some e) rows1
            (h @ BeginTx ?t # evs1 @ evs2) = (r, evs')"
          by fastforce
        with None None2 std ex LoopRetry Suc.prems have r: "r = (rows', None)"
          and ev: "evs = BeginTx ?t # evs1 @ evs2 @ evs'"
          by (auto simp: Let_def)
        from Suc.IH[OF rec[unfolded r]]
        have "committed (h @ BeginTx ?t # evs1 @ evs2) qs evs'" by simp
        from committed_shift[OF this] ev show ?thesis by simp
      next
        case (LoopReturn e)
        with None None2 std ex Suc.prems show ?thesis by (auto simp: Let_def)
      qed
    qed
  qed
qed

lemma RetryableTransaction_ok:
  "0 < MaxRetries cfg \<Longrightarrow> RetryableTransaction srv ign cfg qs h = ((rows, None), evs) \<Longrightarrow>
   committed h qs evs"
  unfolding RetryableTransaction_def
  by (drule RetryableTransaction_loop_ok) auto

lemma errgroup_run_ok:
  "errgroup_run srv stmts h = (None, evs) \<Longrightarrow> all_committed h (map stmt stmts) evs"
proof (induction stmts arbitrary: h evs)
  case Nil
  then show ?case by simp
next
  case (Cons st stmts)
  obtain rows r e1 where
    t: "RetryableTransaction srv False NewDBConfig [stmt st] h = ((rows, r), e1)"
    by (metis prod.exhaust)
  with Cons.prems have r: "r = None" by (auto split: option.splits prod.splits)
  obtain r2 e2 where g: "errgroup_run srv stmts (h @ e1) = (r2, e2)" by fastforce
  with t r Cons.prems have "r2 = None" "evs = e1 @ e2" by auto
  moreover have "committed h [stmt st] e1"
    using RetryableTransaction_ok[OF _ t[unfolded r]] by (simp add: NewDBConfig_def)
  moreover have "all_committed (h @ e1) (map stmt stmts) e2"
    using Cons.IH g \<open>r2 = None\<close> by simp
  ultimately show ?case by auto
qed

section \<open>Evaluating the examples\<close>

lemmas example_defs = example_queue_sub_def example_map_sub_def example_helpers_def
  example_server_def example_t1_def example_t1_new_def

lemmas flush_defs = flush_def flushDeltaQueue_def flushDeltaQueue_stmts_def flushDeltaMap_def
  flushDeltaMap_stmts_def RetryableTransaction_def NewDBConfig_def standardizeTrx_def
  createDeleteStmt_def createReplaceStmt_def Let_def

section \<open>Properties: the flush of a subscription\<close>

text \<open>
  The runs of the queue. In queue mode a change that is not dropped is appended to the
  end of the delta queue. At flush time the statements built are, in order, one
  \<^verbatim>\<open>DELETE\<close> or \<^verbatim>\<open>REPLACE\<close> statement per batch of the queue; the batches,
  laid end to end with their kinds, are the queue itself (no key lost, moved or
  re-ordered, and every key in a statement of its own kind); two batches that follow
  each other differ in kind unless the first had more keys than the target batch
  size; with a target that is not negative no batch is empty and none has more than
  target + 1 keys. Under the lock the statements are executed one after the other, in
  this order, on the lock's transaction (the events are the statements up to the
  first failure, all of them on success); without the lock, and with at least one
  attempt allowed, a flush that returns no error has executed them in this order
  inside one transaction of \<^verbatim>\<open>RetryableTransaction\<close>, which ends with the
  commit.
\<close>

lemma batch_stmt_text:
  "ks \<noteq> [] \<Longrightarrow>
   batch_stmt hp s (True, ks)
     = \<lparr>numKeys = int (length ks),
        stmt = ''DELETE FROM '' @ QuotedName (newTable s)
               @ '' WHERE ('' @ QuoteColumns hp (KeyColumns (table s))
               @ '') IN ('' @ pksToRowValueConstructor hp ks @ '')''\<rparr>
   \<and> batch_stmt hp s (False, ks)
     = \<lparr>numKeys = int (length ks),
        stmt = ''REPLACE INTO '' @ QuotedName (newTable s)
               @ '' ('' @ IntersectNonGeneratedColumns (table s) (newTable s)
               @ '') SELECT '' @ IntersectNonGeneratedColumns (table s) (newTable s)
               @ '' FROM '' @ QuotedName (table s)
               @ '' FORCE INDEX (PRIMARY) WHERE ('' @ QuoteColumns hp (KeyColumns (table s))
               @ '') IN ('' @ pksToRowValueConstructor hp ks @ '')''\<rparr>"
  by (simp add: batch_stmt_def createDeleteStmt_def createReplaceStmt_def)

lemma flushDeltaQueue_runs:
  assumes q: "deltaQueue s \<noteq> []"
  shows "(disableDeltaMap s \<and> keyAboveWatermark s pk = Inr False \<longrightarrow>
            keyHasChanged Sprintf_v s pk deleted
              = Inr (s\<lparr>deltaQueue := deltaQueue s
                         @ [\<lparr>key = HashKey Sprintf_v pk, isDelete = deleted\<rparr>]\<rparr>))
       \<and> flushDeltaQueue_stmts hp s target
            = map (batch_stmt hp s) (queue_batches target (deltaQueue s))
       \<and> concat (map batch_changes (queue_batches target (deltaQueue s))) = deltaQueue s
       \<and> merged_ok target (queue_batches target (deltaQueue s))
       \<and> (0 \<le> target \<longrightarrow>
            (\<forall>b \<in> set (queue_batches target (deltaQueue s)).
               snd b \<noteq> [] \<and> int (length (snd b)) \<le> target + 1))
       \<and> (\<forall>r s' evs. flushDeltaQueue hp srv target config s True (Some l) h = ((r, s'), evs) \<longrightarrow>
            (\<exists>n. evs = take n (lock_events l (extractStmt hp (flushDeltaQueue_stmts hp s target))))
            \<and> (r = None \<longrightarrow>
                 evs = lock_events l (extractStmt hp (flushDeltaQueue_stmts hp s target))))
       \<and> (\<forall>s' evs. 0 < MaxRetries config
              \<and> flushDeltaQueue hp srv target config s False lock h = ((None, s'), evs) \<longrightarrow>
            committed h (extractStmt hp (flushDeltaQueue_stmts hp s target)) evs)"
proof (intro conjI)
  show "disableDeltaMap s \<and> keyAboveWatermark s pk = Inr False \<longrightarrow>
            keyHasChanged Sprintf_v s pk deleted
              = Inr (s\<lparr>deltaQueue := deltaQueue s
                         @ [\<lparr>key = HashKey Sprintf_v pk, isDelete = deleted\<rparr>]\<rparr>)"
    by (simp add: keyHasChanged_def)
  show "flushDeltaQueue_stmts hp s target
            = map (batch_stmt hp s) (queue_batches target (deltaQueue s))"
    by (rule stmts_batches)
  show "concat (map batch_changes (queue_batches target (deltaQueue s))) = deltaQueue s"
    by (simp add: queue_batches_def batches_flatten)
  show "merged_ok target (queue_batches target (deltaQueue s))"
    by (simp add: queue_batches_def batches_merged)
  show "0 \<le> target \<longrightarrow>
            (\<forall>b \<in> set (queue_batches target (deltaQueue s)).
               snd b \<noteq> [] \<and> int (length (snd b)) \<le> target + 1)"
  proof
    assume t: "0 \<le> target"
    have 1: "\<forall>b \<in> set (queue_batches target (deltaQueue s)). snd b \<noteq> []"
      unfolding queue_batches_def using q t by (intro batches_nonempty) simp
    have 2: "\<forall>b \<in> set (queue_batches target (deltaQueue s)). int (length (snd b)) \<le> target + 1"
      unfolding queue_batches_def using t by (intro batches_size) simp_all
    from 1 2 show "\<forall>b \<in> set (queue_batches target (deltaQueue s)).
               snd b \<noteq> [] \<and> int (length (snd b)) \<le> target + 1" by blast
  qed
  show "\<forall>r s' evs. flushDeltaQueue hp srv target config s True (Some l) h = ((r, s'), evs) \<longrightarrow>
            (\<exists>n. evs = take n (lock_events l (extractStmt hp (flushDeltaQueue_stmts hp s target))))
            \<and> (r = None \<longrightarrow>
                 evs = lock_events l (extractStmt hp (flushDeltaQueue_stmts hp s target)))"
  proof (intro allI impI)
    fix r s' evs
    assume f: "flushDeltaQueue hp srv target config s True (Some l) h = ((r, s'), evs)"
    obtain r0 evs0 where e: "ExecUnderLock srv (Some l)
        (extractStmt hp (flushDeltaQueue_stmts hp s target)) h = (r0, evs0)" by fastforce
    with f q have "r = r0" "evs = evs0"
      by (auto simp: flushDeltaQueue_def Let_def split: option.splits)
    with ExecUnderLock_events[OF e]
    show "(\<exists>n. evs = take n (lock_events l (extractStmt hp (flushDeltaQueue_stmts hp s target))))
            \<and> (r = None \<longrightarrow>
                 evs = lock_events l (extractStmt hp (flushDeltaQueue_stmts hp s target)))"
      by simp
  qed
  show "\<forall>s' evs. 0 < MaxRetries config
              \<and> flushDeltaQueue hp srv target config s False lock h = ((None, s'), evs) \<longrightarrow>
            committed h (extractStmt hp (flushDeltaQueue_stmts hp s target)) evs"
  proof (intro allI impI, elim conjE)
    fix s' evs
    assume m: "0 < MaxRetries config"
      and f: "flushDeltaQueue hp srv target config s False lock h = ((None, s'), evs)"
    obtain rows r0 evs0 where e: "RetryableTransaction srv True config
        (extractStmt hp (flushDeltaQueue_stmts hp s target)) h = ((rows, r0), evs0)"
      by (metis prod.exhaust)
    with f q have "r0 = None" "evs = evs0"
      by (auto simp: flushDeltaQueue_def Let_def split: option.splits)
    with RetryableTransaction_ok[OF m] e
    show "committed h (extractStmt hp (flushDeltaQueue_stmts hp s target)) evs" by simp
  qed
qed


lemma example_queue_batches:
  "queue_batches 1000 (deltaQueue example_queue_sub)
     = [(False, [''1'', ''2'']), (True, [''3'']), (False, [''4''])]"
  by (simp add: queue_batches_def example_queue_sub_def)

lemma flushDeltaQueue_runs_example:
  "deltaQueue example_queue_sub \<noteq> []
   \<and> map numKeys (flushDeltaQueue_stmts example_helpers example_queue_sub 1000) = [2, 1, 1]
   \<and> merged_ok 1000 [(False, [''1'', ''2'']), (True, [''3'']), (False, [''4''])]"
proof -
  have q: "deltaQueue example_queue_sub \<noteq> []" by (simp add: example_queue_sub_def)
  from flushDeltaQueue_runs[OF q, of "[]" "\<lambda>v. v" False example_helpers 1000
      "example_server []" NewDBConfig "\<lparr>tables = [], lockTxn = 0\<rparr>" "[]" None]
  have "flushDeltaQueue_stmts example_helpers example_queue_sub 1000
      = map (batch_stmt example_helpers example_queue_sub)
          (queue_batches 1000 (deltaQueue example_queue_sub))"
    and "merged_ok 1000 (queue_batches 1000 (deltaQueue example_queue_sub))"
    by blast+
  then show ?thesis using q
    by (simp add: example_queue_batches batch_stmt_def createDeleteStmt_def createReplaceStmt_def)
qed


lemma flushDeltaQueue_result:
  "flushDeltaQueue hp srv target config s underLock lock h = ((r, s'), evs) \<Longrightarrow>
   (r \<noteq> None \<longrightarrow> s' = s) \<and> (r = None \<longrightarrow> s' = s\<lparr>deltaQueue := []\<rparr>)"
  by (auto simp: flushDeltaQueue_def Let_def split: if_splits prod.splits option.splits)

lemma flushDeltaMap_result:
  "flushDeltaMap hp srv target s underLock lock h = ((r, s'), evs) \<Longrightarrow>
   (r \<noteq> None \<longrightarrow> s' = s) \<and> (r = None \<longrightarrow> s' = s\<lparr>deltaMap := []\<rparr>)"
  by (auto simp: flushDeltaMap_def Let_def split: if_splits prod.splits option.splits sum.splits)

lemma flushDeltaMap_executed:
  assumes "flushDeltaMap hp srv target s underLock lock h = ((None, s'), evs)"
      and "flushDeltaMap_stmts hp s target = Inr stmts"
  shows "underLock \<and> lock = Some l \<longrightarrow> evs = lock_events l (extractStmt hp stmts)"
    and "\<not> underLock \<longrightarrow> all_committed h (map stmt stmts) evs"
proof -
  show "underLock \<and> lock = Some l \<longrightarrow> evs = lock_events l (extractStmt hp stmts)"
  proof
    assume u: "underLock \<and> lock = Some l"
    obtain r0 evs0 where e: "ExecUnderLock srv (Some l) (extractStmt hp stmts) h = (r0, evs0)"
      by fastforce
    with assms u have "r0 = None" "evs = evs0"
      by (auto simp: flushDeltaMap_def split: option.splits)
    with ExecUnderLock_events[OF e] show "evs = lock_events l (extractStmt hp stmts)" by simp
  qed
  show "\<not> underLock \<longrightarrow> all_committed h (map stmt stmts) evs"
  proof
    assume u: "\<not> underLock"
    obtain r0 evs0 where e: "errgroup_run srv stmts h = (r0, evs0)" by fastforce
    with assms u have "r0 = None" "evs = evs0"
      by (auto simp: flushDeltaMap_def split: option.splits)
    with errgroup_run_ok e show "all_committed h (map stmt stmts) evs" by simp
  qed
qed

lemma flushDeltaQueue_executed:
  assumes "flushDeltaQueue hp srv target config s underLock lock h = ((None, s'), evs)"
      and "deltaQueue s \<noteq> []"
  shows "underLock \<and> lock = Some l \<longrightarrow>
           evs = lock_events l (extractStmt hp (flushDeltaQueue_stmts hp s target))"
    and "\<not> underLock \<and> 0 < MaxRetries config \<longrightarrow>
           committed h (extractStmt hp (flushDeltaQueue_stmts hp s target)) evs"
proof -
  show "underLock \<and> lock = Some l \<longrightarrow>
           evs = lock_events l (extractStmt hp (flushDeltaQueue_stmts hp s target))"
  proof
    assume u: "underLock \<and> lock = Some l"
    obtain r0 evs0 where e: "ExecUnderLock srv (Some l)
        (extractStmt hp (flushDeltaQueue_stmts hp s target)) h = (r0, evs0)" by fastforce
    with assms u have "r0 = None" "evs = evs0"
      by (auto simp: flushDeltaQueue_def Let_def split: option.splits)
    with ExecUnderLock_events[OF e]
    show "evs = lock_events l (extractStmt hp (flushDeltaQueue_stmts hp s target))" by simp
  qed
  show "\<not> underLock \<and> 0 < MaxRetries config \<longrightarrow>
           committed h (extractStmt hp (flushDeltaQueue_stmts hp s target)) evs"
  proof
    assume u: "\<not> underLock \<and> 0 < MaxRetries config"
    obtain rows r0 evs0 where e: "RetryableTransaction srv True config
        (extractStmt hp (flushDeltaQueue_stmts hp s target)) h = ((rows, r0), evs0)"
      by (metis prod.exhaust)
    with assms u have "r0 = None" "evs = evs0"
      by (auto simp: flushDeltaQueue_def Let_def split: option.splits)
    with RetryableTransaction_ok[of config] e u
    show "committed h (extractStmt hp (flushDeltaQueue_stmts hp s target)) evs" by simp
  qed
qed


text \<open>
  The delta store behind a flush. A flush that returns an error leaves the
  subscription as it was, delta store included; a flush that returns no error leaves
  the store empty and nothing else changed. Under the lock such a flush has executed
  every statement that is not empty on the lock's transaction; without the lock the
  queue's statements ran in one committed transaction, given that at least one
  attempt is allowed, and each statement of the map ran in a committed transaction of
  its own.
\<close>

lemma flush_atomic:
  assumes f: "flush hp srv target config s underLock lock h = ((r, s'), evs)"
  shows "(r \<noteq> None \<longrightarrow> s' = s)
       \<and> (r = None \<longrightarrow> s' = clear_store s \<and> getDeltaLen s' = 0)
       \<and> (r = None \<and> disableDeltaMap s \<and> deltaQueue s \<noteq> [] \<longrightarrow>
            (underLock \<and> lock = Some l \<longrightarrow>
               evs = lock_events l (extractStmt hp (flushDeltaQueue_stmts hp s target)))
            \<and> (\<not> underLock \<and> 0 < MaxRetries config \<longrightarrow>
               committed h (extractStmt hp (flushDeltaQueue_stmts hp s target)) evs))
       \<and> (r = None \<and> \<not> disableDeltaMap s \<longrightarrow>
            (\<exists>stmts. flushDeltaMap_stmts hp s target = Inr stmts
               \<and> (underLock \<and> lock = Some l \<longrightarrow> evs = lock_events l (extractStmt hp stmts))
               \<and> (\<not> underLock \<longrightarrow> all_committed h (map stmt stmts) evs)))"
proof (cases "disableDeltaMap s")
  case True
  with f have q: "flushDeltaQueue hp srv target config s underLock lock h = ((r, s'), evs)"
    by (simp add: flush_def)
  from flushDeltaQueue_result[OF q] True
  have 1: "(r \<noteq> None \<longrightarrow> s' = s) \<and> (r = None \<longrightarrow> s' = clear_store s \<and> getDeltaLen s' = 0)"
    by (auto simp: clear_store_def getDeltaLen_def)
  have 2: "r = None \<and> deltaQueue s \<noteq> [] \<longrightarrow>
            (underLock \<and> lock = Some l \<longrightarrow>
               evs = lock_events l (extractStmt hp (flushDeltaQueue_stmts hp s target)))
            \<and> (\<not> underLock \<and> 0 < MaxRetries config \<longrightarrow>
               committed h (extractStmt hp (flushDeltaQueue_stmts hp s target)) evs)"
  proof (intro impI, elim conjE)
    assume n: "r = None" and ne: "deltaQueue s \<noteq> []"
    from flushDeltaQueue_executed[OF q[unfolded n] ne]
    show "(underLock \<and> lock = Some l \<longrightarrow>
               evs = lock_events l (extractStmt hp (flushDeltaQueue_stmts hp s target)))
            \<and> (\<not> underLock \<and> 0 < MaxRetries config \<longrightarrow>
               committed h (extractStmt hp (flushDeltaQueue_stmts hp s target)) evs)"
      by blast
  qed
  from 1 2 True show ?thesis by blast
next
  case False
  with f have m: "flushDeltaMap hp srv target s underLock lock h = ((r, s'), evs)"
    by (simp add: flush_def)
  from flushDeltaMap_result[OF m] False
  have 1: "(r \<noteq> None \<longrightarrow> s' = s) \<and> (r = None \<longrightarrow> s' = clear_store s \<and> getDeltaLen s' = 0)"
    by (auto simp: clear_store_def getDeltaLen_def)
  have 2: "r = None \<longrightarrow>
            (\<exists>stmts. flushDeltaMap_stmts hp s target = Inr stmts
               \<and> (underLock \<and> lock = Some l \<longrightarrow> evs = lock_events l (extractStmt hp stmts))
               \<and> (\<not> underLock \<longrightarrow> all_committed h (map stmt stmts) evs))"
  proof
    assume n: "r = None"
    with m obtain stmts where st: "flushDeltaMap_stmts hp s target = Inr stmts"
      by (auto simp: flushDeltaMap_def split: sum.splits)
    from flushDeltaMap_executed[OF m[unfolded n] st] st
    show "\<exists>stmts. flushDeltaMap_stmts hp s target = Inr stmts
               \<and> (underLock \<and> lock = Some l \<longrightarrow> evs = lock_events l (extractStmt hp stmts))
               \<and> (\<not> underLock \<longrightarrow> all_committed h (map stmt stmts) evs)"
      by blast
  qed
  from 1 2 False show ?thesis by blast
qed


lemma flush_atomic_example:
  "fst (fst (flush example_helpers
               (example_server [Inr (''Warning'', ''1264'', ''Out of range'')])
               1000 NewDBConfig example_queue_sub False None [])) \<noteq> None
   \<and> snd (fst (flush example_helpers
               (example_server [Inr (''Warning'', ''1264'', ''Out of range'')])
               1000 NewDBConfig example_queue_sub False None [])) = example_queue_sub
   \<and> fst (fst (flush example_helpers (example_server [])
               1000 NewDBConfig example_queue_sub False None [])) = None
   \<and> deltaQueue (snd (fst (flush example_helpers (example_server [])
               1000 NewDBConfig example_queue_sub False None []))) = []"
proof -
  let ?bad = "flush example_helpers
               (example_server [Inr (''Warning'', ''1264'', ''Out of range'')])
               1000 NewDBConfig example_queue_sub False None []"
  let ?good = "flush example_helpers (example_server [])
               1000 NewDBConfig example_queue_sub False None []"
  have b: "fst (fst ?bad) \<noteq> None"
    by (simp add: flush_defs example_defs eval_nat_numeral)
  have g: "fst (fst ?good) = None"
    by (simp add: flush_defs example_defs eval_nat_numeral)
  have "?bad = ((fst (fst ?bad), snd (fst ?bad)), snd ?bad)" by simp
  from flush_atomic[OF this] b have 1: "snd (fst ?bad) = example_queue_sub" by blast
  have "?good = ((fst (fst ?good), snd (fst ?good)), snd ?good)" by simp
  from flush_atomic[OF this] g have "snd (fst ?good) = clear_store example_queue_sub" by blast
  then have 2: "deltaQueue (snd (fst ?good)) = []"
    by (simp add: clear_store_def example_queue_sub_def)
  from b g 1 2 show ?thesis by blast
qed

section \<open>Claims on the flush of a subscription\<close>




section \<open>Claims on the warnings of a flush transaction\<close>







section \<open>The replication client\<close>

text \<open>
  The spec's formula at the nine states of \<^verbatim>\<open>TestAllChangesFlushed\<close>, each beside
  the value the test asserts there. They differ at the sixth state, where no
  subscription holds a change and the flushed position (50) is behind the buffered one
  (100): the test expects true. The method itself is not in the sources at hand.
\<close>

lemma TestAllChangesFlushed_spec_values:
  "map (\<lambda>(c, expected). (AllChangesFlushed_spec c, expected)) TestAllChangesFlushed
   = [(True, True), (True, True), (False, False), (False, False),
      (False, False), (False, True), (True, True), (True, True),
      (False, False)]"
  by (simp add: TestAllChangesFlushed_def AllChangesFlushed_spec_def
      test_client_def test_sub_def keyHasChanged_def keyAboveWatermark_def
      keyAboveWatermarkEnabled_def getDeltaLen_def Let_def HashKey_def)

section \<open>Claims on the cutover\<close>



section \<open>Claims on the key-above-watermark optimization\<close>

lemmas runner_defs = Runner_setup_def resumeFromCheckpoint_def createNewTable_def
  alterNewTable_def createCheckpointTable_def dropOldTable_def prepareForCutover_def
  checksum_def setCurrentState_def dumpCheckpoint_def NewTableInfo_def Let_def

lemmas runner_example_defs = example_env_def example_runner_def example_db_def example_t1_def


text \<open>
  C7. When the optimization is enabled for a subscription (the flag is set and a
  callback is there), \<^verbatim>\<open>keyHasChanged\<close> asks the callback about the first
  column of the key, for an upsert as for a delete, and drops the event (the
  subscription is unchanged) if the callback says the key is above the high
  watermark; otherwise the event is buffered. When the optimization is not enabled
  every event is buffered. \<^verbatim>\<open>setCurrentState\<close> with any state past
  \<^verbatim>\<open>copyRows\<close> switches the optimization off in the replication client, after
  which no subscription of it has the optimization enabled; a state up to
  \<^verbatim>\<open>copyRows\<close> leaves the client as it is.
\<close>

theorem keyAboveWatermark_optimization:
  "(keyAboveWatermarkEnabled s \<and> keyAboveCopierCallback s = Some callback \<longrightarrow>
      keyHasChanged Sprintf_v s (k0 # ks) deleted
        = (if callback k0 then Inr s
           else if disableDeltaMap s
           then Inr (s\<lparr>deltaQueue := deltaQueue s
                        @ [\<lparr>key = HashKey Sprintf_v (k0 # ks), isDelete = deleted\<rparr>]\<rparr>)
           else Inr (s\<lparr>deltaMap := AList.update (HashKey Sprintf_v (k0 # ks)) deleted
                                      (deltaMap s)\<rparr>)))
   \<and> (\<not> keyAboveWatermarkEnabled s \<longrightarrow>
      keyHasChanged Sprintf_v s pk deleted
        = (if disableDeltaMap s
           then Inr (s\<lparr>deltaQueue := deltaQueue s
                        @ [\<lparr>key = HashKey Sprintf_v pk, isDelete = deleted\<rparr>]\<rparr>)
           else Inr (s\<lparr>deltaMap := AList.update (HashKey Sprintf_v pk) deleted (deltaMap s)\<rparr>)))
   \<and> (migrationState_iota st > migrationState_iota stateCopyRows \<and> replClient r = Some c \<longrightarrow>
        replClient (setCurrentState r st) = Some (SetKeyAboveWatermarkOptimization c False)
        \<and> (\<forall>(name, s') \<in> set (subscriptions (SetKeyAboveWatermarkOptimization c False)).
              \<not> keyAboveWatermarkEnabled s'))
   \<and> (migrationState_iota st \<le> migrationState_iota stateCopyRows \<longrightarrow>
        replClient (setCurrentState r st) = replClient r)"
  by (auto simp: keyHasChanged_def keyAboveWatermark_def keyAboveWatermarkEnabled_def
      setCurrentState_def SetKeyAboveWatermarkOptimization_def
      setKeyAboveWatermarkOptimization_def Let_def)


theorem keyAboveWatermark_optimization_witness:
  "(let s = (test_sub False)\<lparr>enableKeyAboveWatermark := True,
                              keyAboveCopierCallback := Some (\<lambda>k. k = ''9'')\<rparr>;
        c = test_client [(''test.subscription_test'', s)] 100 50;
        r = (example_runner False False ''ADD COLUMN c INT'')\<lparr>replClient := Some c\<rparr>
    in keyAboveWatermarkEnabled s
       \<and> keyHasChanged (\<lambda>v. v) s [''9''] False = Inr s
       \<and> keyHasChanged (\<lambda>v. v) s [''9''] True = Inr s
       \<and> keyHasChanged (\<lambda>v. v) s [''1''] False = Inr (s\<lparr>deltaMap := [(''1'', False)]\<rparr>)
       \<and> replClient (setCurrentState r stateCopyRows) = Some c
       \<and> map_option (\<lambda>c'. map (\<lambda>(name, s'). keyAboveWatermarkEnabled s') (subscriptions c'))
           (replClient (setCurrentState r stateApplyChangeset)) = Some [False]
       \<and> (case replClient (setCurrentState r stateApplyChangeset) of
            None \<Rightarrow> False
          | Some c' \<Rightarrow> (case subscriptions c' of
              [(name, s')] \<Rightarrow> keyHasChanged (\<lambda>v. v) s' [''9''] False
                                 = Inr (s'\<lparr>deltaMap := [(''9'', False)]\<rparr>)
            | _ \<Rightarrow> False)))"
proof -
  let ?s = "(test_sub False)\<lparr>enableKeyAboveWatermark := True,
                              keyAboveCopierCallback := Some (\<lambda>k. k = ''9'')\<rparr>"
  let ?c = "test_client [(''test.subscription_test'', ?s)] 100 50"
  let ?r = "(example_runner False False ''ADD COLUMN c INT'')\<lparr>replClient := Some ?c\<rparr>"
  let ?s' = "setKeyAboveWatermarkOptimization ?s False"
  have en: "keyAboveWatermarkEnabled ?s \<and> keyAboveCopierCallback ?s = Some (\<lambda>k. k = ''9'')"
    by (simp add: keyAboveWatermarkEnabled_def test_sub_def)
  have dis: "\<not> keyAboveWatermarkEnabled ?s'"
    by (simp add: keyAboveWatermarkEnabled_def setKeyAboveWatermarkOptimization_def test_sub_def)
  have rc: "replClient ?r = Some ?c" by simp
  note inst = keyAboveWatermark_optimization[where s = "?s" and callback = "\<lambda>k. k = ''9''"
      and Sprintf_v = "\<lambda>v. v" and r = "?r" and c = "?c"]
  note inst' = keyAboveWatermark_optimization[where s = "?s'"
      and Sprintf_v = "\<lambda>v. v" and r = "?r" and c = "?c"]
  have 1: "keyHasChanged (\<lambda>v. v) ?s [''9''] False = Inr ?s"
    using inst[where ?k0.0 = "''9''" and ks = "[]" and deleted = False, THEN conjunct1] en by simp
  have 2: "keyHasChanged (\<lambda>v. v) ?s [''9''] True = Inr ?s"
    using inst[where ?k0.0 = "''9''" and ks = "[]" and deleted = True, THEN conjunct1] en by simp
  have 3: "keyHasChanged (\<lambda>v. v) ?s [''1''] False = Inr (?s\<lparr>deltaMap := [(''1'', False)]\<rparr>)"
    using inst[where ?k0.0 = "''1''" and ks = "[]" and deleted = False, THEN conjunct1] en
    by (simp add: test_sub_def HashKey_def)
  have 4: "replClient (setCurrentState ?r stateCopyRows) = Some ?c"
    using inst[where st = stateCopyRows, THEN conjunct2, THEN conjunct2, THEN conjunct2] rc
    by simp
  have 5: "replClient (setCurrentState ?r stateApplyChangeset)
      = Some (SetKeyAboveWatermarkOptimization ?c False)"
    using inst[where st = stateApplyChangeset, THEN conjunct2, THEN conjunct2, THEN conjunct1] rc
    by simp
  have 6: "keyHasChanged (\<lambda>v. v) ?s' [''9''] False = Inr (?s'\<lparr>deltaMap := [(''9'', False)]\<rparr>)"
    using inst'[where pk = "[''9'']" and deleted = False, THEN conjunct2, THEN conjunct1] dis
    by (simp add: test_sub_def HashKey_def setKeyAboveWatermarkOptimization_def)
  from en 1 2 3 4 5 6 dis show ?thesis
    by (simp add: Let_def SetKeyAboveWatermarkOptimization_def test_client_def)
qed

section \<open>Claims on resuming from a checkpoint\<close>






lemma resume_ok:
  "resumeFromCheckpoint env r db = (None, r') \<Longrightarrow>
   Checksum (migration r') \<and> usedResumeFromCheckpoint r'
   \<and> (\<exists>cp. copier r' = Some cp \<and> FinalChecksum cp)
   \<and> checker r' = checker r"
  by (auto simp: resumeFromCheckpoint_def Let_def split: option.splits sum.splits if_splits)

lemma SetKeyAboveWatermarkOptimization_twice:
  "SetKeyAboveWatermarkOptimization (SetKeyAboveWatermarkOptimization c False) False
     = SetKeyAboveWatermarkOptimization c False"
  by (simp add: SetKeyAboveWatermarkOptimization_def setKeyAboveWatermarkOptimization_def
      case_prod_beta comp_def)

lemma prepareForCutover_calls:
  assumes "replClient (setCurrentState r2 stateApplyChangeset) = Some c
      \<and> env_Flush env c = None \<and> r_newTable r2 = Some nt
      \<and> env_Exec env (''ANALYZE TABLE '' @ QuotedName nt) = None"
  shows "snd (prepareForCutover env r2)
          = [Call_StopPeriodicFlush, Call_Flush, Call_Exec (''ANALYZE TABLE '' @ QuotedName nt)]
            @ (if Checksum (migration r2)
               then Call_NewChecker
                    # (if env_NewChecker env = None
                       then Call_checker_Run
                            # (if env_checker_Run env = None then [Call_Flush] else [])
                       else [])
               else [])
        \<and> fst (fst (prepareForCutover env r2))
          = (if Checksum (migration r2)
             then (case env_NewChecker env of Some e \<Rightarrow> Some e | None \<Rightarrow> env_checker_Run env)
             else None)
        \<and> checker (snd (fst (prepareForCutover env r2)))
          = (if Checksum (migration r2) then env_NewChecker env = None else checker r2)"
proof -
  from assms obtain c0 where c0: "replClient r2 = Some c0"
    and c: "c = SetKeyAboveWatermarkOptimization c0 False"
    by (auto simp: setCurrentState_def Let_def split: if_splits)
  from assms c have f: "env_Flush env (SetKeyAboveWatermarkOptimization c0 False) = None"
    and n: "r_newTable r2 = Some nt"
    and a: "env_Exec env (''ANALYZE TABLE '' @ QuotedName nt) = None" by blast+
  show ?thesis
    using c0 f n a
    by (simp add: prepareForCutover_def checksum_def setCurrentState_def Let_def
        SetKeyAboveWatermarkOptimization_twice split: option.splits)
qed

text \<open>
  C4. When \<^verbatim>\<open>resumeFromCheckpoint\<close> succeeds, the migration's
  \<^verbatim>\<open>Checksum\<close> flag is true (whatever the user set), the copier was built with
  \<^verbatim>\<open>FinalChecksum\<close> true and the run counts as resumed. In
  \<^verbatim>\<open>prepareForCutover\<close>, once the flush and \<^verbatim>\<open>ANALYZE TABLE\<close> have gone
  through, the checksum runs exactly when the flag is set: with the flag the checker
  is made and, unless that fails, run, and \<^verbatim>\<open>prepareForCutover\<close> returns the
  error of either (a last flush follows a checksum that passed); without the flag
  neither is called and no error is returned. So after a successful resume the
  checker is always made and run, and a checksum that fails stops the migration
  before the cutover; on another run this is so only with the flag, which is on by
  default.
\<close>

theorem checksum_forced_on_resume:
  "(resumeFromCheckpoint env r db = (None, r') \<longrightarrow>
      Checksum (migration r') \<and> usedResumeFromCheckpoint r'
      \<and> (\<exists>cp. copier r' = Some cp \<and> FinalChecksum cp))
   \<and> (replClient (setCurrentState r2 stateApplyChangeset) = Some c
      \<and> env_Flush env c = None \<and> r_newTable r2 = Some nt
      \<and> env_Exec env (''ANALYZE TABLE '' @ QuotedName nt) = None \<longrightarrow>
        snd (prepareForCutover env r2)
          = [Call_StopPeriodicFlush, Call_Flush, Call_Exec (''ANALYZE TABLE '' @ QuotedName nt)]
            @ (if Checksum (migration r2)
               then Call_NewChecker
                    # (if env_NewChecker env = None
                       then Call_checker_Run
                            # (if env_checker_Run env = None then [Call_Flush] else [])
                       else [])
               else [])
        \<and> fst (fst (prepareForCutover env r2))
          = (if Checksum (migration r2)
             then (case env_NewChecker env of Some e \<Rightarrow> Some e | None \<Rightarrow> env_checker_Run env)
             else None)
        \<and> checker (snd (fst (prepareForCutover env r2)))
          = (if Checksum (migration r2) then env_NewChecker env = None else checker r2))
   \<and> (resumeFromCheckpoint env r db = (None, r')
      \<and> replClient (setCurrentState r' stateApplyChangeset) = Some c'
      \<and> env_Flush env c' = None \<and> r_newTable r' = Some nt'
      \<and> env_Exec env (''ANALYZE TABLE '' @ QuotedName nt') = None \<longrightarrow>
        snd (prepareForCutover env r')
          = [Call_StopPeriodicFlush, Call_Flush,
             Call_Exec (''ANALYZE TABLE '' @ QuotedName nt'), Call_NewChecker]
            @ (if env_NewChecker env = None
               then Call_checker_Run # (if env_checker_Run env = None then [Call_Flush] else [])
               else [])
        \<and> fst (fst (prepareForCutover env r'))
          = (case env_NewChecker env of Some e \<Rightarrow> Some e | None \<Rightarrow> env_checker_Run env))
   \<and> Checksum_default"
proof -
  have 1: "resumeFromCheckpoint env r db = (None, r') \<longrightarrow>
      Checksum (migration r') \<and> usedResumeFromCheckpoint r'
      \<and> (\<exists>cp. copier r' = Some cp \<and> FinalChecksum cp)"
    using resume_ok[of env r db r'] by blast
  have 2: "replClient (setCurrentState r2 stateApplyChangeset) = Some c
      \<and> env_Flush env c = None \<and> r_newTable r2 = Some nt
      \<and> env_Exec env (''ANALYZE TABLE '' @ QuotedName nt) = None \<longrightarrow>
        snd (prepareForCutover env r2)
          = [Call_StopPeriodicFlush, Call_Flush, Call_Exec (''ANALYZE TABLE '' @ QuotedName nt)]
            @ (if Checksum (migration r2)
               then Call_NewChecker
                    # (if env_NewChecker env = None
                       then Call_checker_Run
                            # (if env_checker_Run env = None then [Call_Flush] else [])
                       else [])
               else [])
        \<and> fst (fst (prepareForCutover env r2))
          = (if Checksum (migration r2)
             then (case env_NewChecker env of Some e \<Rightarrow> Some e | None \<Rightarrow> env_checker_Run env)
             else None)
        \<and> checker (snd (fst (prepareForCutover env r2)))
          = (if Checksum (migration r2) then env_NewChecker env = None else checker r2)"
    using prepareForCutover_calls[of r2 c env nt] by blast
  have 3: "resumeFromCheckpoint env r db = (None, r')
      \<and> replClient (setCurrentState r' stateApplyChangeset) = Some c'
      \<and> env_Flush env c' = None \<and> r_newTable r' = Some nt'
      \<and> env_Exec env (''ANALYZE TABLE '' @ QuotedName nt') = None \<longrightarrow>
        snd (prepareForCutover env r')
          = [Call_StopPeriodicFlush, Call_Flush,
             Call_Exec (''ANALYZE TABLE '' @ QuotedName nt'), Call_NewChecker]
            @ (if env_NewChecker env = None
               then Call_checker_Run # (if env_checker_Run env = None then [Call_Flush] else [])
               else [])
        \<and> fst (fst (prepareForCutover env r'))
          = (case env_NewChecker env of Some e \<Rightarrow> Some e | None \<Rightarrow> env_checker_Run env)"
  proof
    assume h: "resumeFromCheckpoint env r db = (None, r')
      \<and> replClient (setCurrentState r' stateApplyChangeset) = Some c'
      \<and> env_Flush env c' = None \<and> r_newTable r' = Some nt'
      \<and> env_Exec env (''ANALYZE TABLE '' @ QuotedName nt') = None"
    then have k: "Checksum (migration r')" using resume_ok[of env r db r'] by blast
    from h have "replClient (setCurrentState r' stateApplyChangeset) = Some c'
      \<and> env_Flush env c' = None \<and> r_newTable r' = Some nt'
      \<and> env_Exec env (''ANALYZE TABLE '' @ QuotedName nt') = None" by blast
    from prepareForCutover_calls[OF this] k
    show "snd (prepareForCutover env r')
          = [Call_StopPeriodicFlush, Call_Flush,
             Call_Exec (''ANALYZE TABLE '' @ QuotedName nt'), Call_NewChecker]
            @ (if env_NewChecker env = None
               then Call_checker_Run # (if env_checker_Run env = None then [Call_Flush] else [])
               else [])
        \<and> fst (fst (prepareForCutover env r'))
          = (case env_NewChecker env of Some e \<Rightarrow> Some e | None \<Rightarrow> env_checker_Run env)"
      by simp
  qed
  have 4: Checksum_default by (simp add: Checksum_default_def)
  from 1 2 3 4 show ?thesis by (intro conjI)
qed

theorem checksum_forced_on_resume_witness:
  "(let user = example_runner False False ''ADD COLUMN c INT'';
        resumed = snd (resumeFromCheckpoint example_env user example_db);
        failing = example_env\<lparr>env_checker_Run := Some (Error ''checksum failed'')\<rparr>;
        fresh = fst (snd (fst (Runner_setup example_env
                  (example_runner False False ''ADD COLUMN d INT'') example_db)))
    in \<not> Checksum (migration user)
       \<and> fst (resumeFromCheckpoint example_env user example_db) = None
       \<and> Checksum (migration resumed)
       \<and> prepareForCutover example_env resumed
           = ((None, snd (fst (prepareForCutover example_env resumed))),
              [Call_StopPeriodicFlush, Call_Flush, Call_Exec ''ANALYZE TABLE `test`.`_t1_new`'',
               Call_NewChecker, Call_checker_Run, Call_Flush])
       \<and> prepareForCutover failing resumed
           = ((Some (Error ''checksum failed''), snd (fst (prepareForCutover failing resumed))),
              [Call_StopPeriodicFlush, Call_Flush, Call_Exec ''ANALYZE TABLE `test`.`_t1_new`'',
               Call_NewChecker, Call_checker_Run])
       \<and> \<not> Checksum (migration fresh)
       \<and> prepareForCutover failing fresh
           = ((None, snd (fst (prepareForCutover failing fresh))),
              [Call_StopPeriodicFlush, Call_Flush, Call_Exec ''ANALYZE TABLE `test`.`_t1_new`'']))"
proof -
  let ?user = "example_runner False False ''ADD COLUMN c INT''"
  let ?res = "resumeFromCheckpoint example_env ?user example_db"
  let ?failing = "example_env\<lparr>env_checker_Run := Some (Error ''checksum failed'')\<rparr>"
  let ?fresh = "fst (snd (fst (Runner_setup example_env
                  (example_runner False False ''ADD COLUMN d INT'') example_db)))"
  let ?nt = "(NewTableInfo ''test'' ''_t1_new'')\<lparr>KeyColumns := [''a''],
                NonGeneratedColumns := [''a'', ''b'']\<rparr>"
  have u: "\<not> Checksum (migration ?user)" by (simp add: example_runner_def)
  have ok: "fst ?res = None" by (simp add: runner_defs runner_example_defs)
  then have e: "?res = (None, snd ?res)" by (metis prod.collapse)
  have e': "resumeFromCheckpoint ?failing ?user example_db = (None, snd ?res)"
    by (simp add: runner_defs runner_example_defs)
  have c: "replClient (setCurrentState (snd ?res) stateApplyChangeset)
      = Some (the (replClient (setCurrentState (snd ?res) stateApplyChangeset)))"
    by (simp add: runner_defs runner_example_defs)
  have f: "\<And>x. env_Flush example_env x = None" "\<And>x. env_Flush ?failing x = None"
    by (simp_all add: example_env_def)
  have n: "r_newTable (snd ?res) = Some ?nt"
    by (simp add: runner_defs runner_example_defs)
  have a: "\<And>q. env_Exec example_env q = None" "\<And>q. env_Exec ?failing q = None"
    by (simp_all add: example_env_def)
  have k: "env_NewChecker example_env = None" "env_checker_Run example_env = None"
    "env_NewChecker ?failing = None" "env_checker_Run ?failing = Some (Error ''checksum failed'')"
    by (simp_all add: example_env_def)
  have q: "QuotedName ?nt = ''`test`.`_t1_new`''" by (simp add: NewTableInfo_def)
  from checksum_forced_on_resume[of example_env ?user example_db "snd ?res" "snd ?res"
      "the (replClient (setCurrentState (snd ?res) stateApplyChangeset))" ?nt
      "the (replClient (setCurrentState (snd ?res) stateApplyChangeset))" ?nt] e c f n a k q
  have 1: "Checksum (migration (snd ?res))"
    and 2: "snd (prepareForCutover example_env (snd ?res))
      = [Call_StopPeriodicFlush, Call_Flush, Call_Exec ''ANALYZE TABLE `test`.`_t1_new`'',
         Call_NewChecker, Call_checker_Run, Call_Flush]"
    and 3: "fst (fst (prepareForCutover example_env (snd ?res))) = None"
    by simp_all
  from checksum_forced_on_resume[of ?failing ?user example_db "snd ?res" "snd ?res"
      "the (replClient (setCurrentState (snd ?res) stateApplyChangeset))" ?nt
      "the (replClient (setCurrentState (snd ?res) stateApplyChangeset))" ?nt] e' c f n a k q
  have 4: "snd (prepareForCutover ?failing (snd ?res))
      = [Call_StopPeriodicFlush, Call_Flush, Call_Exec ''ANALYZE TABLE `test`.`_t1_new`'',
         Call_NewChecker, Call_checker_Run]"
    and 5: "fst (fst (prepareForCutover ?failing (snd ?res))) = Some (Error ''checksum failed'')"
    by simp_all
  have fr: "\<not> Checksum (migration ?fresh)" "r_newTable ?fresh = Some ?nt"
    "replClient (setCurrentState ?fresh stateApplyChangeset)
       = Some (the (replClient (setCurrentState ?fresh stateApplyChangeset)))"
    by (simp_all add: runner_defs runner_example_defs)
  from checksum_forced_on_resume[of ?failing ?user example_db "snd ?res" ?fresh
      "the (replClient (setCurrentState ?fresh stateApplyChangeset))" ?nt
      "the (replClient (setCurrentState (snd ?res) stateApplyChangeset))" ?nt] fr f a q
  have 6: "snd (prepareForCutover ?failing ?fresh)
      = [Call_StopPeriodicFlush, Call_Flush, Call_Exec ''ANALYZE TABLE `test`.`_t1_new`'']"
    and 7: "fst (fst (prepareForCutover ?failing ?fresh)) = None"
    by simp_all
  have p: "\<And>x a b. snd x = b \<Longrightarrow> fst (fst x) = a \<Longrightarrow> x = ((a, snd (fst x)), b)"
    by (metis prod.collapse)
  from u ok 1 p[OF 2 3] p[OF 4 5] fr(1) p[OF 6 7] show ?thesis
    by (simp add: Let_def)
qed

text \<open>
  The column list of the \<^verbatim>\<open>CREATE TABLE\<close> statement of
  \<^verbatim>\<open>createCheckpointTable\<close> is \<open>createCheckpointTable_columns\<close>, each column
  with its type, separated by a comma and a blank (two blanks behind the second).
\<close>

lemma createCheckpointTable_statement_columns:
  "''(id int NOT NULL AUTO_INCREMENT PRIMARY KEY, low_watermark TEXT,  ''
     @ ''binlog_name VARCHAR(255), binlog_pos INT, rows_copied BIGINT, ''
     @ ''rows_copied_logical BIGINT, alter_statement TEXT)''
   = ''('' @ Join (map (\<lambda>(name, tp). name @ '' '' @ tp) (take 2 createCheckpointTable_columns))
               '', ''
       @ '',  ''
       @ Join (map (\<lambda>(name, tp). name @ '' '' @ tp) (drop 2 createCheckpointTable_columns))
              '', ''
       @ '')''"
  by (simp add: createCheckpointTable_columns_def)

lemma order_by_id_desc_limit_1_max:
  "order_by_id_desc_limit_1 rows = Some row \<Longrightarrow>
   row \<in> set rows \<and> (\<forall>x \<in> set rows. cp_id x \<le> cp_id row)"
proof (induction rows arbitrary: row)
  case Nil
  then show ?case by simp
next
  case (Cons a rows)
  show ?case
  proof (cases "order_by_id_desc_limit_1 rows")
    case None
    then have "rows = []" by (cases rows) (auto split: option.splits if_splits)
    with Cons.prems show ?thesis by simp
  next
    case (Some best)
    from Cons.IH[OF Some] Cons.prems Some show ?thesis
      by (auto split: if_splits)
  qed
qed

lemma order_by_id_desc_limit_1_append:
  "\<forall>x \<in> set rows. cp_id x < cp_id row \<Longrightarrow> order_by_id_desc_limit_1 (rows @ [row]) = Some row"
  by (induction rows) auto


text \<open>
  C5, as stated, fails on the fields: the checkpoint table of
  \<^verbatim>\<open>createCheckpointTable\<close> has seven columns, with the two row counts and
  without a checksum watermark.
\<close>

theorem checkpoint_columns_counterexample:
  "map fst createCheckpointTable_columns
     = [''id'', ''low_watermark'', ''binlog_name'', ''binlog_pos'', ''rows_copied'',
        ''rows_copied_logical'', ''alter_statement'']
   \<and> ''checksum_watermark'' \<notin> set (map fst createCheckpointTable_columns)
   \<and> ''checksum_watermark'' \<in> set spec_checkpoint_columns
   \<and> length createCheckpointTable_columns \<noteq> length spec_checkpoint_columns"
  by (simp add: createCheckpointTable_columns_def spec_checkpoint_columns_def)


text \<open>
  C5, amended: every checkpoint row persisted to \<^verbatim>\<open>_T_chkpnt\<close> holds the fields
  id, low_watermark (the copier's), binlog_name, binlog_pos, rows_copied,
  rows_copied_logical and alter_statement (the \<^verbatim>\<open>--alter\<close> verbatim); there is
  no checksum watermark. \<^verbatim>\<open>dumpCheckpoint\<close> appends one such row, with the next
  id. On resume the row with the largest id is the one read back (it is the row
  written last), and the copier and the binlog position are set from it.
\<close>

theorem checkpoint_rows:
  "map fst createCheckpointTable_columns = ''id'' # dumpCheckpoint_columns
   \<and> resumeFromCheckpoint_columns = dumpCheckpoint_columns
   \<and> (dumpCheckpoint env r db = (None, db') \<longrightarrow>
        (\<exists>t c cp lw. chkpnt_table db = Some t \<and> replClient r = Some c \<and> copier r = Some cp
           \<and> env_GetLowWatermark env cp = Inr lw
           \<and> chkpnt_table db' = Some (fst t @
               [\<lparr>cp_id = snd t, low_watermark = lw,
                 binlog_name = Name (env_GetBinlogApplyPosition env c),
                 binlog_pos = int (Pos' (env_GetBinlogApplyPosition env c)),
                 rows_copied = CopyRowsCount cp,
                 rows_copied_logical = CopyRowsLogicalCount cp,
                 alter_statement = Alter (migration r)\<rparr>], Suc (snd t))))
   \<and> (order_by_id_desc_limit_1 rows = Some row \<longrightarrow>
        row \<in> set rows \<and> (\<forall>x \<in> set rows. cp_id x \<le> cp_id row))
   \<and> ((\<forall>x \<in> set (fst t0). cp_id x < snd t0) \<longrightarrow>
        order_by_id_desc_limit_1 (fst (insert_checkpoint row0 t0)) = Some (row0\<lparr>cp_id := snd t0\<rparr>))
   \<and> (resumeFromCheckpoint env r db = (None, r') \<longrightarrow>
        (\<exists>t latest. chkpnt_table db = Some t
           \<and> order_by_id_desc_limit_1 (fst t) = Some latest
           \<and> alter_statement latest = Alter (migration r)
           \<and> copier r' = Some \<lparr>FinalChecksum = True,
                 fromCheckpoint = Some (low_watermark latest, rows_copied latest,
                                        rows_copied_logical latest),
                 CopyRowsCount = rows_copied latest,
                 CopyRowsLogicalCount = rows_copied_logical latest\<rparr>
           \<and> replClient r' = Some (env_SetPos env (env_NewClient env)
                 \<lparr>Name = binlog_name latest, Pos' = nat (binlog_pos latest mod 2 ^ 32)\<rparr>)))"
proof -
  have 1: "map fst createCheckpointTable_columns = ''id'' # dumpCheckpoint_columns"
    by (simp add: createCheckpointTable_columns_def dumpCheckpoint_columns_def)
  have 2: "resumeFromCheckpoint_columns = dumpCheckpoint_columns"
    by (simp add: resumeFromCheckpoint_columns_def dumpCheckpoint_columns_def)
  have 3: "dumpCheckpoint env r db = (None, db') \<longrightarrow>
        (\<exists>t c cp lw. chkpnt_table db = Some t \<and> replClient r = Some c \<and> copier r = Some cp
           \<and> env_GetLowWatermark env cp = Inr lw
           \<and> chkpnt_table db' = Some (fst t @
               [\<lparr>cp_id = snd t, low_watermark = lw,
                 binlog_name = Name (env_GetBinlogApplyPosition env c),
                 binlog_pos = int (Pos' (env_GetBinlogApplyPosition env c)),
                 rows_copied = CopyRowsCount cp,
                 rows_copied_logical = CopyRowsLogicalCount cp,
                 alter_statement = Alter (migration r)\<rparr>], Suc (snd t)))"
    by (auto simp: dumpCheckpoint_def insert_checkpoint_def Let_def
        split: option.splits sum.splits prod.splits)
  have 4: "order_by_id_desc_limit_1 rows = Some row \<longrightarrow>
        row \<in> set rows \<and> (\<forall>x \<in> set rows. cp_id x \<le> cp_id row)"
    using order_by_id_desc_limit_1_max[of rows row] by blast
  have 5: "(\<forall>x \<in> set (fst t0). cp_id x < snd t0) \<longrightarrow>
        order_by_id_desc_limit_1 (fst (insert_checkpoint row0 t0)) = Some (row0\<lparr>cp_id := snd t0\<rparr>)"
    by (simp add: insert_checkpoint_def order_by_id_desc_limit_1_append)
  have 6: "resumeFromCheckpoint env r db = (None, r') \<longrightarrow>
        (\<exists>t latest. chkpnt_table db = Some t
           \<and> order_by_id_desc_limit_1 (fst t) = Some latest
           \<and> alter_statement latest = Alter (migration r)
           \<and> copier r' = Some \<lparr>FinalChecksum = True,
                 fromCheckpoint = Some (low_watermark latest, rows_copied latest,
                                        rows_copied_logical latest),
                 CopyRowsCount = rows_copied latest,
                 CopyRowsLogicalCount = rows_copied_logical latest\<rparr>
           \<and> replClient r' = Some (env_SetPos env (env_NewClient env)
                 \<lparr>Name = binlog_name latest, Pos' = nat (binlog_pos latest mod 2 ^ 32)\<rparr>))"
    by (auto simp: resumeFromCheckpoint_def Let_def split: option.splits sum.splits if_splits)
  from 1 2 3 4 5 6 show ?thesis by (intro conjI)
qed

theorem checkpoint_rows_witness:
  "fst (dumpCheckpoint example_env
          (snd (resumeFromCheckpoint example_env
                  (example_runner False False ''ADD COLUMN c INT'') example_db)) example_db) = None
   \<and> map_option cp_id (order_by_id_desc_limit_1 (fst (the (chkpnt_table (snd (dumpCheckpoint example_env
          (snd (resumeFromCheckpoint example_env
                  (example_runner False False ''ADD COLUMN c INT'') example_db)) example_db))))))
       = Some 3
   \<and> map_option low_watermark (order_by_id_desc_limit_1 (fst (the (chkpnt_table example_db))))
       = Some ''w2''"
proof -
  let ?r = "snd (resumeFromCheckpoint example_env
                  (example_runner False False ''ADD COLUMN c INT'') example_db)"
  let ?d = "dumpCheckpoint example_env ?r example_db"
  have ok: "fst ?d = None" by (simp add: runner_defs runner_example_defs)
  then have e: "?d = (None, snd ?d)" by (metis prod.collapse)
  have inv: "\<forall>x \<in> set (fst (the (chkpnt_table example_db))). cp_id x < snd (the (chkpnt_table example_db))"
    by (simp add: example_db_def)
  note inst = checkpoint_rows[of example_env ?r example_db "snd ?d"
      "fst (the (chkpnt_table example_db))"
      "the (order_by_id_desc_limit_1 (fst (the (chkpnt_table example_db))))"
      "the (chkpnt_table example_db)"]
  from inst[THEN conjunct2, THEN conjunct2, THEN conjunct1] e
  have "\<exists>t c cp lw. chkpnt_table example_db = Some t \<and> replClient ?r = Some c
           \<and> copier ?r = Some cp
           \<and> env_GetLowWatermark example_env cp = Inr lw
           \<and> chkpnt_table (snd ?d) = Some (fst t @
               [\<lparr>cp_id = snd t, low_watermark = lw,
                 binlog_name = Name (env_GetBinlogApplyPosition example_env c),
                 binlog_pos = int (Pos' (env_GetBinlogApplyPosition example_env c)),
                 rows_copied = CopyRowsCount cp,
                 rows_copied_logical = CopyRowsLogicalCount cp,
                 alter_statement = Alter (migration ?r)\<rparr>], Suc (snd t))"
    by (rule mp)
  then have 2: "map_option cp_id (order_by_id_desc_limit_1 (fst (the (chkpnt_table (snd ?d))))) = Some 3"
  proof (elim exE conjE)
    fix t c cp lw
    assume t: "chkpnt_table example_db = Some t"
      and d: "chkpnt_table (snd ?d) = Some (fst t @
               [\<lparr>cp_id = snd t, low_watermark = lw,
                 binlog_name = Name (env_GetBinlogApplyPosition example_env c),
                 binlog_pos = int (Pos' (env_GetBinlogApplyPosition example_env c)),
                 rows_copied = CopyRowsCount cp,
                 rows_copied_logical = CopyRowsLogicalCount cp,
                 alter_statement = Alter (migration ?r)\<rparr>], Suc (snd t))"
    from t have t': "t = the (chkpnt_table example_db)" by simp
    have "snd t = 3" unfolding t' by (simp add: example_db_def)
    moreover have "\<forall>x \<in> set (fst t). cp_id x < snd t" using inv t' by simp
    ultimately show ?thesis
      unfolding d by (simp add: order_by_id_desc_limit_1_append)
  qed
  have 3: "map_option low_watermark (order_by_id_desc_limit_1 (fst (the (chkpnt_table example_db))))
       = Some ''w2''" by (simp add: example_db_def)
  from ok 2 3 show ?thesis by blast
qed


end
